theory Spec2Isabelle
  imports Main "HOL-Library.Char_ord" "HOL-Library.List_Lexorder" "HOL-Library.Sublist"
begin

section \<open>Project synchronisation of CodeExpertDesktop\<close>

text \<open>
  A shallow embedding of \<^verbatim>\<open>src/ui/pages/projects/hooks/useProjectSync.ts\<close>: the change
  detection between a baseline and an inventory, the conflict gate, the upload-eligibility
  checks and the sync run itself. Values of TypeScript object types are records; a type that
  is used at a wider one (a \<^verbatim>\<open>File\<close> passed where a \<^verbatim>\<open>RemoteFileState\<close> is expected) is a
  record extension, so that a function over the narrower type accepts it as in the source.
\<close>

subsection \<open>Data model\<close>

datatype FileEntryType = type_file | type_dir

datatype FilePermissions = perm_r | perm_rw

record PathEntry =
  path :: string

record FileEntry = PathEntry +
  type :: FileEntryType

record RemoteFileState = FileEntry +
  version :: int

record RemoteFileInfo = RemoteFileState +
  permissions :: FilePermissions

record File = RemoteFileInfo +
  hash :: string

record LocalFileState = FileEntry +
  hash :: string

datatype RemoteChange = R_noChange | R_updated int | R_removed | R_added int

datatype LocalChange = L_noChange | L_updated | L_removed | L_added

record RemoteFileChange = PathEntry +
  change :: RemoteChange

record LocalFileChange = PathEntry +
  change :: LocalChange

record Conflict = PathEntry +
  changeRemote :: RemoteChange
  changeLocal :: LocalChange

subsection \<open>Array helpers of the prelude (fp-ts)\<close>

text \<open>\<^verbatim>\<open>elem(E)(a, as)\<close> tests \<^verbatim>\<open>E.equals(element, a)\<close> on the elements in order.\<close>

definition elem :: "('b \<Rightarrow> 'a \<Rightarrow> bool) \<Rightarrow> 'a \<Rightarrow> 'b list \<Rightarrow> bool" where
  "elem E a as = list_ex (\<lambda>element. E element a) as"

text \<open>\<^verbatim>\<open>pipe(ys, difference(E)(xs))\<close> keeps the elements of \<open>ys\<close> that are not in \<open>xs\<close>.\<close>

definition difference :: "('b \<Rightarrow> 'a \<Rightarrow> bool) \<Rightarrow> 'b list \<Rightarrow> 'a list \<Rightarrow> 'a list" where
  "difference E xs ys = filter (\<lambda>a. \<not> elem E a xs) ys"

text \<open>\<^verbatim>\<open>pipe(ys, intersection(E)(xs))\<close> keeps the elements of \<open>ys\<close> that are in \<open>xs\<close>.\<close>

definition intersection :: "('b \<Rightarrow> 'a \<Rightarrow> bool) \<Rightarrow> 'b list \<Rightarrow> 'a list \<Rightarrow> 'a list" where
  "intersection E xs ys = filter (\<lambda>a. elem E a xs) ys"

text \<open>\<^verbatim>\<open>nonEmptyArray.fromArray\<close>: none for the empty array.\<close>

definition fromArray :: "'a list \<Rightarrow> 'a list option" where
  "fromArray xs = (if xs = [] then None else Some xs)"

text \<open>\<^verbatim>\<open>option.exists\<close>.\<close>

definition option_exists :: "('a \<Rightarrow> bool) \<Rightarrow> 'a option \<Rightarrow> bool" where
  "option_exists P x = (case x of None \<Rightarrow> False | Some a \<Rightarrow> P a)"

text \<open>\<^verbatim>\<open>option.filter\<close>.\<close>

definition option_filter :: "('a \<Rightarrow> bool) \<Rightarrow> 'a option \<Rightarrow> 'a option" where
  "option_filter P x = (case x of None \<Rightarrow> None | Some a \<Rightarrow> if P a then Some a else None)"

text \<open>\<^verbatim>\<open>option.sequenceS\<close> of two options.\<close>

definition sequenceS :: "'a option \<Rightarrow> 'b option \<Rightarrow> ('a \<times> 'b) option" where
  "sequenceS x y = (case (x, y) of (Some a, Some b) \<Rightarrow> Some (a, b) | _ \<Rightarrow> None)"

subsection \<open>Change detection\<close>

text \<open>
  Modelled from the spec: \<^verbatim>\<open>isFile\<close> of \<^verbatim>\<open>@/domain/File\<close>, which is not among the sources;
  an entry takes part in the diff when its \<^verbatim>\<open>type\<close> is \<^verbatim>\<open>'file'\<close>.
\<close>

definition isFile :: "'a FileEntry_scheme \<Rightarrow> bool" where
  "isFile e = (type e = type_file)"

definition eqPath :: "'a PathEntry_scheme \<Rightarrow> 'b PathEntry_scheme \<Rightarrow> bool" where
  "eqPath a b = (path a = path b)"

text \<open>The changes a diff reports, the empty list for none.\<close>

definition the_changes :: "'a list option \<Rightarrow> 'a list" where
  "the_changes x = (case x of None \<Rightarrow> [] | Some cs \<Rightarrow> cs)"

text \<open>The three groups of \<^verbatim>\<open>getRemoteChanges\<close>, named as its local constants are.\<close>

definition remote_removed ::
  "'a RemoteFileState_scheme list \<Rightarrow> 'b RemoteFileState_scheme list \<Rightarrow> RemoteFileChange list" where
  "remote_removed previous latest =
     (let previousFiles = filter isFile previous; latestFiles = filter isFile latest in
      map (\<lambda>e. \<lparr>path = path e, RemoteFileChange.change = R_removed\<rparr>)
        (difference eqPath latestFiles previousFiles))"

definition remote_added ::
  "'a RemoteFileState_scheme list \<Rightarrow> 'b RemoteFileState_scheme list \<Rightarrow> RemoteFileChange list" where
  "remote_added previous latest =
     (let previousFiles = filter isFile previous; latestFiles = filter isFile latest in
      map (\<lambda>e. \<lparr>path = path e, RemoteFileChange.change = R_added (version e)\<rparr>)
        (difference eqPath previousFiles latestFiles))"

definition remote_updated ::
  "'a RemoteFileState_scheme list \<Rightarrow> 'b RemoteFileState_scheme list \<Rightarrow> RemoteFileChange list" where
  "remote_updated previous latest =
     (let previousFiles = filter isFile previous; latestFiles = filter isFile latest in
      map (\<lambda>e. \<lparr>path = path e, RemoteFileChange.change = R_updated (version e)\<rparr>)
        (filter (\<lambda>ls. option_exists (\<lambda>cs. version cs \<noteq> version ls)
                         (find (\<lambda>cs. path cs = path ls) latestFiles))
           previousFiles))"

definition getRemoteChanges ::
  "'a RemoteFileState_scheme list \<Rightarrow> 'b RemoteFileState_scheme list
     \<Rightarrow> RemoteFileChange list option" where
  "getRemoteChanges previous latest =
     fromArray (concat [remote_removed previous latest, remote_added previous latest,
                        remote_updated previous latest])"

text \<open>The three groups of \<^verbatim>\<open>getLocalChanges\<close>.\<close>

definition local_removed ::
  "'a File_scheme list \<Rightarrow> 'b LocalFileState_scheme list \<Rightarrow> LocalFileChange list" where
  "local_removed previous latest =
     (let previousFiles = filter isFile previous; latestFiles = filter isFile latest in
      map (\<lambda>e. \<lparr>path = path e, LocalFileChange.change = L_removed\<rparr>)
        (difference eqPath latestFiles previousFiles))"

definition local_added ::
  "'a File_scheme list \<Rightarrow> 'b LocalFileState_scheme list \<Rightarrow> LocalFileChange list" where
  "local_added previous latest =
     (let previousFiles = filter isFile previous; latestFiles = filter isFile latest in
      map (\<lambda>e. \<lparr>path = path e, LocalFileChange.change = L_added\<rparr>)
        (difference eqPath previousFiles latestFiles))"

text \<open>
  \<^verbatim>\<open>array.bindTo('previous')\<close>, \<^verbatim>\<open>array.bind('latest', ...)\<close>: every baseline file is paired
  with the first observed file of the same path, and dropped when there is none.
\<close>

definition local_updated ::
  "'a File_scheme list \<Rightarrow> 'b LocalFileState_scheme list \<Rightarrow> LocalFileChange list" where
  "local_updated previous latest =
     (let previousFiles = filter isFile previous; latestFiles = filter isFile latest in
      map (\<lambda>(previous, latest). \<lparr>path = path latest, LocalFileChange.change = L_updated\<rparr>)
        (filter (\<lambda>(previous, latest). LocalFileState.hash latest \<noteq> File.hash previous)
           (concat (map (\<lambda>previous.
                      case find (\<lambda>latest. eqPath previous latest) latestFiles of
                        None \<Rightarrow> []
                      | Some latest \<Rightarrow> [(previous, latest)])
                    previousFiles))))"

definition getLocalChanges ::
  "'a File_scheme list \<Rightarrow> 'b LocalFileState_scheme list \<Rightarrow> LocalFileChange list option" where
  "getLocalChanges previous latest =
     fromArray (concat [local_removed previous latest, local_added previous latest,
                        local_updated previous latest])"

text \<open>
  The order the specification asks of a list of changes, in its words: the removed records,
  then the added ones, then the updated ones, each group alphabetised by path.
\<close>

fun remote_rank :: "RemoteChange \<Rightarrow> nat" where
  "remote_rank R_removed = 0"
| "remote_rank (R_added v) = 1"
| "remote_rank (R_updated v) = 2"
| "remote_rank R_noChange = 3"

definition spec_ordered_remote :: "RemoteFileChange list \<Rightarrow> bool" where
  "spec_ordered_remote cs =
     (sorted (map (\<lambda>c. remote_rank (RemoteFileChange.change c)) cs) \<and>
      sorted (map path (filter (\<lambda>c. remote_rank (RemoteFileChange.change c) = 0) cs)) \<and>
      sorted (map path (filter (\<lambda>c. remote_rank (RemoteFileChange.change c) = 1) cs)) \<and>
      sorted (map path (filter (\<lambda>c. remote_rank (RemoteFileChange.change c) = 2) cs)))"

fun local_rank :: "LocalChange \<Rightarrow> nat" where
  "local_rank L_removed = 0"
| "local_rank L_added = 1"
| "local_rank L_updated = 2"
| "local_rank L_noChange = 3"

definition spec_ordered_local :: "LocalFileChange list \<Rightarrow> bool" where
  "spec_ordered_local cs =
     (sorted (map (\<lambda>c. local_rank (LocalFileChange.change c)) cs) \<and>
      sorted (map path (filter (\<lambda>c. local_rank (LocalFileChange.change c) = 0) cs)) \<and>
      sorted (map path (filter (\<lambda>c. local_rank (LocalFileChange.change c) = 1) cs)) \<and>
      sorted (map path (filter (\<lambda>c. local_rank (LocalFileChange.change c) = 2) cs)))"

subsection \<open>Conflict detection\<close>

definition getConflicts ::
  "LocalFileChange list \<Rightarrow> RemoteFileChange list \<Rightarrow> Conflict list option" where
  "getConflicts local remote =
     (let conflicts =
        map (\<lambda>changeLocal.
               \<lparr>path = path changeLocal,
                changeRemote =
                  (case map_option RemoteFileChange.change
                          (find (\<lambda>changeRemote. eqPath changeLocal changeRemote) remote) of
                     None \<Rightarrow> R_noChange
                   | Some c \<Rightarrow> c),
                changeLocal = LocalFileChange.change changeLocal\<rparr>)
          (intersection eqPath remote local)
      in fromArray conflicts)"

subsection \<open>Exceptions and outcomes\<close>

text \<open>
  \<^verbatim>\<open>SyncException\<close>; the payload \<^verbatim>\<open>{ path, reason }\<close> is the two arguments, in that order.
\<close>

datatype SyncException =
    conflictingChanges
  | readOnlyFilesChanged string string
  | invalidFilename string
  | fileSystemCorrupted string string
  | projectDirMissing
  | networkError string

text \<open>
  What a \<^verbatim>\<open>TaskEither<SyncException, A>\<close> comes to: it resolves to a right or a left value,
  it rejects (a \<^verbatim>\<open>throw\<close>, a \<^verbatim>\<open>panic\<close>), or it never resolves.
\<close>

datatype 'a Outcome = Right 'a | Left SyncException | Rejected string | Never

definition checkConflicts ::
  "LocalFileChange list option \<Rightarrow> RemoteFileChange list option \<Rightarrow> SyncException + unit" where
  "checkConflicts localChanges remoteChanges =
     (case Option.bind (sequenceS localChanges remoteChanges)
             (\<lambda>(local, remote). getConflicts local remote) of
        None \<Rightarrow> Inr ()
      | Some conflicts \<Rightarrow> Inl conflictingChanges)"

subsection \<open>Upload-eligibility checks\<close>

text \<open>
  The path functions of \<^verbatim>\<open>@/lib/tauri\<close> and the name predicates of \<^verbatim>\<open>@/domain/File\<close> are
  not among the sources; the checks take them as parameters: \<open>dirname\<close> gives the parent or
  an error message, \<open>basename\<close> the last segment or nothing.
\<close>

text \<open>
  \<^verbatim>\<open>findClosest\<close> recurses on \<^verbatim>\<open>dirname\<close> until the map knows the path; with a
  \<open>dirname\<close> that never reaches a known path nor \<^verbatim>\<open>'.'\<close> it does not return, which is the
  value \<open>None\<close>.
\<close>

partial_function (option) findClosest ::
  "(string \<Rightarrow> string + string) \<Rightarrow> (string \<Rightarrow> 'a option) \<Rightarrow> string
     \<Rightarrow> (SyncException + 'a) option" where
  "findClosest dirname m relPath =
     (case m relPath of
        None \<Rightarrow>
          if relPath = ''.''
          then Some (Inl (fileSystemCorrupted relPath ''Root directory must exist''))
          else (case dirname relPath of
                  Inl reason \<Rightarrow> Some (Inl (fileSystemCorrupted relPath reason))
                | Inr parent \<Rightarrow> findClosest dirname m parent)
      | Some a \<Rightarrow> Some (Inr a))"

declare findClosest.simps [code]

definition outcome_of :: "(SyncException + 'a) option \<Rightarrow> 'a Outcome" where
  "outcome_of r = (case r of None \<Rightarrow> Never | Some (Inl e) \<Rightarrow> Left e | Some (Inr a) \<Rightarrow> Right a)"

definition checkClosestExistingAncestorIsWritable ::
  "(string \<Rightarrow> string + string) \<Rightarrow> 'a RemoteFileInfo_scheme list \<Rightarrow> LocalFileChange
     \<Rightarrow> LocalFileChange Outcome" where
  "checkClosestExistingAncestorIsWritable dirname remote c =
     (case outcome_of
             (findClosest dirname
                (\<lambda>closestPath.
                   map_option (\<lambda>i. permissions i = perm_rw)
                     (find (\<lambda>i. path i = closestPath) remote))
                (path c)) of
        Right b \<Rightarrow>
          if b then Right c
          else Left (readOnlyFilesChanged (path c) ''Parent directory is read-only'')
      | Left e \<Rightarrow> Left e
      | Rejected x \<Rightarrow> Rejected x
      | Never \<Rightarrow> Never)"

definition checkValidFileName ::
  "(string \<Rightarrow> string option) \<Rightarrow> (string \<Rightarrow> bool) \<Rightarrow> LocalFileChange
     \<Rightarrow> LocalFileChange Outcome" where
  "checkValidFileName basename isValidFileName c =
     (case basename (path c) of
        None \<Rightarrow> Left (fileSystemCorrupted (path c) ''Could not determine basename of path'')
      | Some filename \<Rightarrow>
          if isValidFileName filename then Right c else Left (invalidFilename filename))"

text \<open>
  \<^verbatim>\<open>ancestors\<close>: \<^verbatim>\<open>array.unfoldTaskK\<close> of the prelude, which is not among the sources, is
  read as the unfold it is named after: from the state it emits the next \<^verbatim>\<open>dirname\<close> and
  goes on from it, and stops at an error (after emitting it) and at \<^verbatim>\<open>'.'\<close>.
\<close>

partial_function (option) ancestors ::
  "(string \<Rightarrow> string + string) \<Rightarrow> SyncException + string
     \<Rightarrow> (SyncException + string) list option" where
  "ancestors dirname b =
     (case b of
        Inl e \<Rightarrow> Some []
      | Inr p \<Rightarrow>
          if p = ''.'' then Some []
          else (let x = (case dirname p of
                           Inl reason \<Rightarrow> Inl (fileSystemCorrupted p reason)
                         | Inr parent \<Rightarrow> Inr parent)
                in Option.bind (ancestors dirname x) (\<lambda>xs. Some (x # xs))))"

declare ancestors.simps [code]

text \<open>\<^verbatim>\<open>either.sequenceArray\<close>: the first left, or all the right values.\<close>

fun sequenceArray :: "('e + 'a) list \<Rightarrow> 'e + 'a list" where
  "sequenceArray [] = Inr []"
| "sequenceArray (Inl e # xs) = Inl e"
| "sequenceArray (Inr a # xs) = (case sequenceArray xs of Inl e \<Rightarrow> Inl e | Inr as \<Rightarrow> Inr (a # as))"

text \<open>\<^verbatim>\<open>array.traverse(taskOption.ApplicativePar)\<close>: nothing when one element gives nothing.\<close>

fun traverse_option :: "('a \<Rightarrow> 'b option) \<Rightarrow> 'a list \<Rightarrow> 'b list option" where
  "traverse_option f [] = Some []"
| "traverse_option f (x # xs) =
     (case f x of
        None \<Rightarrow> None
      | Some y \<Rightarrow> (case traverse_option f xs of None \<Rightarrow> None | Some ys \<Rightarrow> Some (y # ys)))"

text \<open>\<^verbatim>\<open>paths.join('/')\<close>.\<close>

fun join_slash :: "string list \<Rightarrow> string" where
  "join_slash [] = []"
| "join_slash [x] = x"
| "join_slash (x # y # ys) = x @ ''/'' @ join_slash (y # ys)"

definition checkEveryNewAncestorIsValidDirName ::
  "(string \<Rightarrow> string + string) \<Rightarrow> (string \<Rightarrow> string option) \<Rightarrow> (string \<Rightarrow> bool)
     \<Rightarrow> 'a RemoteFileInfo_scheme list \<Rightarrow> LocalFileChange \<Rightarrow> LocalFileChange Outcome" where
  "checkEveryNewAncestorIsValidDirName dirname basename isValidDirName remote c =
     (let isExisting = (\<lambda>p. list_ex (\<lambda>i. path i = p) remote);
          isNew = (\<lambda>p. \<not> isExisting p)
      in case ancestors dirname (Inr (path c)) of
           None \<Rightarrow> Never
         | Some es \<Rightarrow>
             (case sequenceArray es of
                Inl e \<Rightarrow> Left e
              | Inr paths \<Rightarrow>
                  (case Option.bind (traverse_option basename (filter isNew paths))
                          (\<lambda>names. if list_all isValidDirName names then Some names else None) of
                     None \<Rightarrow>
                       Left (fileSystemCorrupted (join_slash paths)
                               ''Parent directory has invalid name'')
                   | Some names \<Rightarrow> Right c)))"

definition isFileWritable :: "'a RemoteFileInfo_scheme list \<Rightarrow> LocalFileChange \<Rightarrow> bool" where
  "isFileWritable remote c =
     (case find (\<lambda>i. path i = path c) remote of
        None \<Rightarrow> False
      | Some i \<Rightarrow> permissions i = perm_rw)"

text \<open>\<^verbatim>\<open>taskEither.chain\<close> on outcomes that have no effect of their own.\<close>

definition chain_outcome :: "'a Outcome \<Rightarrow> ('a \<Rightarrow> 'b Outcome) \<Rightarrow> 'b Outcome" where
  "chain_outcome r f =
     (case r of Right a \<Rightarrow> f a | Left e \<Rightarrow> Left e | Rejected x \<Rightarrow> Rejected x | Never \<Rightarrow> Never)"

text \<open>
  \<^verbatim>\<open>taskEither.traverseArray\<close> runs the tasks side by side and waits for all of them: a
  rejection rejects the whole, else a task that never resolves keeps the whole from
  resolving, else the first left in the order of the array is the result.
\<close>

fun rights :: "'a Outcome list \<Rightarrow> 'a list" where
  "rights [] = []"
| "rights (Right a # rs) = a # rights rs"
| "rights (r # rs) = rights rs"

definition traverseArray_par :: "'a Outcome list \<Rightarrow> 'a list Outcome" where
  "traverseArray_par rs =
     (case find (\<lambda>r. case r of Rejected x \<Rightarrow> True | _ \<Rightarrow> False) rs of
        Some (Rejected x) \<Rightarrow> Rejected x
      | _ \<Rightarrow>
        if list_ex (\<lambda>r. r = Never) rs then Never
        else (case find (\<lambda>r. case r of Left e \<Rightarrow> True | _ \<Rightarrow> False) rs of
                Some (Left e) \<Rightarrow> Left e
              | _ \<Rightarrow> Right (rights rs)))"

text \<open>The check of one change in \<^verbatim>\<open>getFilesToUpload\<close>, by the kind of the change.\<close>

definition uploadCheck ::
  "(string \<Rightarrow> string + string) \<Rightarrow> (string \<Rightarrow> string option) \<Rightarrow> (string \<Rightarrow> bool)
     \<Rightarrow> (string \<Rightarrow> bool) \<Rightarrow> 'a RemoteFileInfo_scheme list \<Rightarrow> LocalFileChange
     \<Rightarrow> LocalFileChange Outcome" where
  "uploadCheck dirname basename isValidFileName isValidDirName remote x =
     (case LocalFileChange.change x of
        L_noChange \<Rightarrow> Rejected ''File has no changes''
      | L_added \<Rightarrow>
          chain_outcome
            (chain_outcome (checkClosestExistingAncestorIsWritable dirname remote x)
               (checkEveryNewAncestorIsValidDirName dirname basename isValidDirName remote))
            (\<lambda>c. chain_outcome (checkValidFileName basename isValidFileName c) (\<lambda>_. Right c))
      | L_removed \<Rightarrow>
          chain_outcome
            (if isFileWritable remote x then Right x
             else Left (readOnlyFilesChanged [] ''File is read-only''))
            (checkClosestExistingAncestorIsWritable dirname remote)
      | L_updated \<Rightarrow>
          (if isFileWritable remote x then Right x
           else Left (readOnlyFilesChanged [] ''File is read-only'')))"

definition getFilesToUpload ::
  "(string \<Rightarrow> string + string) \<Rightarrow> (string \<Rightarrow> string option) \<Rightarrow> (string \<Rightarrow> bool)
     \<Rightarrow> (string \<Rightarrow> bool) \<Rightarrow> LocalFileChange list \<Rightarrow> 'a RemoteFileInfo_scheme list
     \<Rightarrow> LocalFileChange list Outcome" where
  "getFilesToUpload dirname basename isValidFileName isValidDirName local remote =
     traverseArray_par
       (map (uploadCheck dirname basename isValidFileName isValidDirName remote)
          (filter (\<lambda>c. case LocalFileChange.change c of
                          L_noChange \<Rightarrow> False
                        | L_added \<Rightarrow> True
                        | L_removed \<Rightarrow> True
                        | L_updated \<Rightarrow> True)
             local))"

definition getFilesToDownload ::
  "'a RemoteFileInfo_scheme list \<Rightarrow> RemoteFileChange list \<Rightarrow> 'a RemoteFileInfo_scheme list" where
  "getFilesToDownload projectInfoRemote remoteChanges =
     filter (\<lambda>i. list_ex (\<lambda>file. path file = path i)
                   (filter (\<lambda>c. case RemoteFileChange.change c of
                                   R_noChange \<Rightarrow> False
                                 | R_added v \<Rightarrow> True
                                 | R_removed \<Rightarrow> False
                                 | R_updated v \<Rightarrow> True)
                      remoteChanges))
       projectInfoRemote"

definition getFilesToDelete :: "RemoteFileChange list \<Rightarrow> RemoteFileChange list" where
  "getFilesToDelete remoteChanges =
     filter (\<lambda>c. case RemoteFileChange.change c of
                    R_noChange \<Rightarrow> False
                  | R_added v \<Rightarrow> False
                  | R_removed \<Rightarrow> True
                  | R_updated v \<Rightarrow> False)
       remoteChanges"


subsection \<open>The diffs of a sync run\<close>

datatype ForceSyncDirection = push | pull

text \<open>The values bound to \<^verbatim>\<open>remoteChanges\<close> and \<^verbatim>\<open>localChanges\<close> in \<^verbatim>\<open>useProjectSync\<close>.\<close>

definition sync_remoteChanges ::
  "ForceSyncDirection option \<Rightarrow> 'a File_scheme list option \<Rightarrow> 'b RemoteFileInfo_scheme list
     \<Rightarrow> RemoteFileChange list option" where
  "sync_remoteChanges force projectInfoPrevious projectInfoRemote_files =
     option_filter (\<lambda>_. force = None \<or> force = Some pull)
       (case projectInfoPrevious of
          None \<Rightarrow> getRemoteChanges ([] :: RemoteFileState list) projectInfoRemote_files
        | Some previous \<Rightarrow> getRemoteChanges previous projectInfoRemote_files)"

definition sync_localChanges ::
  "ForceSyncDirection option \<Rightarrow> 'a LocalFileState_scheme list option \<Rightarrow> 'b File_scheme list option
     \<Rightarrow> LocalFileChange list option" where
  "sync_localChanges force projectInfoLocal projectInfoPrevious =
     option_filter (\<lambda>_. force = None \<or> force = Some push)
       (Option.bind (sequenceS projectInfoLocal projectInfoPrevious)
          (\<lambda>(local, previous). getLocalChanges previous local))"


text \<open>
  Modelled from the spec: \<^verbatim>\<open>dirname\<close> of \<^verbatim>\<open>@/lib/tauri\<close> (not among the sources), used
  where a property is evaluated on an example: it fails on the degenerate inputs \<^verbatim>\<open>.\<close> and
  \<^verbatim>\<open>/\<close> and else drops the last segment of a \<^verbatim>\<open>/\<close>-separated path, a path of one
  segment having the parent \<^verbatim>\<open>.\<close>.
\<close>

definition posix_dirname :: "string \<Rightarrow> string + string" where
  "posix_dirname p =
     (if p = ''.'' \<or> p = ''/'' then Inl ''path has no parent''
      else (let d = rev (drop 1 (dropWhile (\<lambda>c. c \<noteq> CHR ''/'') (rev p)))
            in Inr (if d = [] then (if CHR ''/'' \<in> set p then ''/'' else ''.'') else d)))"

subsection \<open>Projects and the project store\<close>

type_synonym ProjectId = string

text \<open>
  Modelled from the spec: \<^verbatim>\<open>ProjectMetadata\<close>, \<^verbatim>\<open>ProjectFiles\<close> and \<^verbatim>\<open>SyncState\<close> of
  \<^verbatim>\<open>@/domain\<close> are not among the sources. The metadata has the fields the sync run and
  \<^verbatim>\<open>Project.ts\<close> read; the local state is \<^verbatim>\<open>{ basePath, files, syncedAt, syncState }\<close>; of the
  variants of \<^verbatim>\<open>Changes\<close> only \<^verbatim>\<open>unknown\<close> is named, the others stand as one.
\<close>

record ProjectMetadata =
  projectId :: ProjectId
  semester :: string
  courseName :: string
  exerciseName :: string
  taskName :: string
  taskOrder :: int
  exerciseOrder :: int

datatype Changes = unknown | known_changes

datatype SyncState = synced Changes | syncing | failed SyncException

record LocalProjectValue = ProjectMetadata +
  files :: "File list"
  basePath :: string
  syncedAt :: nat
  syncState :: SyncState

datatype Project = Remote ProjectMetadata | Local LocalProjectValue

text \<open>\<^verbatim>\<open>project.value.projectId\<close>.\<close>

definition project_id :: "Project \<Rightarrow> ProjectId" where
  "project_id p = (case p of Remote m \<Rightarrow> projectId m | Local v \<Rightarrow> projectId v)"

text \<open>
  \<^verbatim>\<open>projectADT.local({ ...project.value, files, basePath, syncedAt, syncState })\<close>: the fields
  of the metadata are those of the input project, the four fields of the local state are
  the given ones.
\<close>

definition local_of ::
  "Project \<Rightarrow> File list \<Rightarrow> string \<Rightarrow> nat \<Rightarrow> SyncState \<Rightarrow> Project" where
  "local_of p fs bp t st =
     (case p of
        Remote m \<Rightarrow>
          Local (ProjectMetadata.extend m
                   (LocalProjectValue.fields fs bp t st))
      | Local v \<Rightarrow> Local (v\<lparr>files := fs, basePath := bp, syncedAt := t, syncState := st\<rparr>))"

subsection \<open>Effects\<close>

text \<open>
  Every call that leaves the program is an event of the run: a signed request, a call of
  the file system or of the host, a reading of the clock, a write to the project store.
  A request is named by its endpoint; \<open>endpoint_path\<close> is the path the source builds.
\<close>

datatype Method = GET | POST

datatype Endpoint = project_info ProjectId | project_file ProjectId | project_files ProjectId

fun endpoint_path :: "Endpoint \<Rightarrow> string" where
  "endpoint_path (project_info i) = ''project/'' @ i @ ''/info''"
| "endpoint_path (project_file i) = ''project/'' @ i @ ''/file''"
| "endpoint_path (project_files i) = ''project/'' @ i @ ''/files''"

text \<open>
  The payload signed into the request: none, \<^verbatim>\<open>{ path }\<close>, or \<^verbatim>\<open>{ tarHash, removeFiles }\<close>
  with the hash left out when nothing is uploaded.
\<close>

datatype JwtPayload =
    payload_none
  | payload_path string
  | payload_files "string option" "string list"

datatype Event =
    SettingRead string
  | ReadDirTree string
  | GetFileHash string
  | TempDir
  | ReadBinaryFile string
  | BuildTar string string "string list"
  | CreateProjectDir string bool
  | CreateProjectPath string
  | WriteProjectFile string string bool
  | RemoveFile string
  | ApiRequest Method Endpoint JwtPayload
  | TimeNow
  | UpsertOne Project

record World =
  events :: "Event list"
  store :: "ProjectId \<Rightarrow> Project option"

text \<open>
  Modelled from the spec: the error of the signed API client (\<^verbatim>\<open>@/utils/api\<close> is not among
  the sources): \<^verbatim>\<open>notReady\<close>, \<^verbatim>\<open>noNetwork\<close>, \<^verbatim>\<open>clientError{status,message}\<close>,
  \<^verbatim>\<open>serverError{status,message}\<close>.
\<close>

datatype ApiError = notReady | noNetwork | clientError nat string | serverError nat string

text \<open>The response of \<^verbatim>\<open>project/{id}/info\<close> and \<^verbatim>\<open>project/{id}/files\<close>: \<^verbatim>\<open>{ _id, files }\<close>.\<close>

record ProjectInfo =
  info_id :: ProjectId
  info_files :: "RemoteFileInfo list"

text \<open>
  What the world answers. The functions of \<^verbatim>\<open>@/lib/tauri\<close>, \<^verbatim>\<open>api\<close>, \<^verbatim>\<open>@/utils/api\<close> and
  \<^verbatim>\<open>@/domain/File\<close> are not among the sources and are parameters of the run. The path
  functions and name predicates are functions of their arguments; every other answer may
  also depend on the events so far, so that the same call can be answered differently
  before and after a write or a request. \<open>fs_readDirTree\<close> gives the tree as the array
  \<^verbatim>\<open>fileArrayFromTree\<close> makes of it.
\<close>

record Env =
  path_join :: "string list \<Rightarrow> string"
  path_escape :: "string \<Rightarrow> string"
  path_dirname :: "string \<Rightarrow> string + string"
  path_basename :: "string \<Rightarrow> string option"
  path_stripAncestor :: "string \<Rightarrow> string \<Rightarrow> string + string"
  file_isVisibleFile :: "FileEntry \<Rightarrow> bool"
  file_isValidFileName :: "string \<Rightarrow> bool"
  file_isValidDirName :: "string \<Rightarrow> bool"
  api_settingRead :: "Event list \<Rightarrow> string \<Rightarrow> string option"
  fs_readDirTree :: "Event list \<Rightarrow> string \<Rightarrow> string + FileEntry list"
  api_getFileHash :: "Event list \<Rightarrow> string \<Rightarrow> string + string"
  os_tempDir :: "Event list \<Rightarrow> string + string"
  fs_readBinaryFile :: "Event list \<Rightarrow> string \<Rightarrow> string + string"
  api_buildTar :: "Event list \<Rightarrow> string \<Rightarrow> string \<Rightarrow> string list \<Rightarrow> string"
  api_createProjectDir :: "Event list \<Rightarrow> string \<Rightarrow> bool \<Rightarrow> string + unit"
  api_createProjectPath :: "Event list \<Rightarrow> string \<Rightarrow> string + unit"
  api_writeProjectFile :: "Event list \<Rightarrow> string \<Rightarrow> string \<Rightarrow> bool \<Rightarrow> string + unit"
  http_projectInfo :: "Event list \<Rightarrow> ProjectId \<Rightarrow> ApiError + ProjectInfo"
  http_projectFile :: "Event list \<Rightarrow> ProjectId \<Rightarrow> string \<Rightarrow> ApiError + string"
  http_projectFiles ::
    "Event list \<Rightarrow> ProjectId \<Rightarrow> JwtPayload \<Rightarrow> string \<Rightarrow> ApiError + ProjectInfo"
  time_now :: "Event list \<Rightarrow> nat"

text \<open>
  A \<^verbatim>\<open>TaskEither<SyncException, A>\<close> run in a world: its outcome and the world it leaves.
\<close>

type_synonym 'a SyncTask = "World \<Rightarrow> 'a Outcome \<times> World"

definition task_right :: "'a \<Rightarrow> 'a SyncTask" where
  "task_right a = (\<lambda>w. (Right a, w))"

definition task_left :: "SyncException \<Rightarrow> 'a SyncTask" where
  "task_left e = (\<lambda>w. (Left e, w))"

definition task_rejected :: "string \<Rightarrow> 'a SyncTask" where
  "task_rejected x = (\<lambda>w. (Rejected x, w))"

definition task_outcome :: "'a Outcome \<Rightarrow> 'a SyncTask" where
  "task_outcome r = (\<lambda>w. (r, w))"

text \<open>\<^verbatim>\<open>taskEither.chain\<close>: the second task runs in the world the first one leaves.\<close>

definition chain :: "'a SyncTask \<Rightarrow> ('a \<Rightarrow> 'b SyncTask) \<Rightarrow> 'b SyncTask" where
  "chain m f =
     (\<lambda>w. case m w of
             (Right a, w') \<Rightarrow> f a w'
           | (Left e, w') \<Rightarrow> (Left e, w')
           | (Rejected x, w') \<Rightarrow> (Rejected x, w')
           | (Never, w') \<Rightarrow> (Never, w'))"

text \<open>A call: the answer is the world's, given the events so far; the call is recorded.\<close>

definition perform :: "Event \<Rightarrow> (Event list \<Rightarrow> 'a) \<Rightarrow> 'a SyncTask" where
  "perform ev answer = (\<lambda>w. (Right (answer (events w)), w\<lparr>events := events w @ [ev]\<rparr>))"

text \<open>\<^verbatim>\<open>array.traverse(taskEither.ApplicativeSeq)\<close>: one after the other, up to the first failure.\<close>

fun traverse_seq :: "('a \<Rightarrow> 'b SyncTask) \<Rightarrow> 'a list \<Rightarrow> 'b list SyncTask" where
  "traverse_seq f [] = task_right []"
| "traverse_seq f (x # xs) =
     chain (f x) (\<lambda>y. chain (traverse_seq f xs) (\<lambda>ys. task_right (y # ys)))"

text \<open>
  \<^verbatim>\<open>taskEither.traverseArray\<close> on tasks with effects: every task runs, here in the order of
  the array, and the outcomes are combined as \<open>traverseArray_par\<close> says.
\<close>

fun run_all :: "('a \<Rightarrow> 'b SyncTask) \<Rightarrow> 'a list \<Rightarrow> World \<Rightarrow> 'b Outcome list \<times> World" where
  "run_all f [] w = ([], w)"
| "run_all f (x # xs) w =
     (case f x w of (r, w') \<Rightarrow> (case run_all f xs w' of (rs, w'') \<Rightarrow> (r # rs, w'')))"

definition traverse_par :: "('a \<Rightarrow> 'b SyncTask) \<Rightarrow> 'a list \<Rightarrow> 'b list SyncTask" where
  "traverse_par f xs = (\<lambda>w. case run_all f xs w of (rs, w') \<Rightarrow> (traverseArray_par rs, w'))"

text \<open>
  \<^verbatim>\<open>fromHttpError\<close>: \<^verbatim>\<open>notReady\<close> panics, the other errors become a \<^verbatim>\<open>networkError\<close>.
\<close>

definition fromHttpError :: "ApiError \<Rightarrow> 'a SyncTask" where
  "fromHttpError err =
     (case err of
        notReady \<Rightarrow> task_rejected ''notReady''
      | noNetwork \<Rightarrow> task_left (networkError ''Could not connect to server'')
      | clientError status message \<Rightarrow> task_left (networkError message)
      | serverError status message \<Rightarrow> task_left (networkError message))"

text \<open>
  Modelled from the spec: \<^verbatim>\<open>projectRepository.upsertOne\<close> (the repository is not among the
  sources): the store maps the project's id to the project given.
\<close>

definition upsertOne :: "Project \<Rightarrow> unit SyncTask" where
  "upsertOne p =
     (\<lambda>w. (Right (), w\<lparr>events := events w @ [UpsertOne p],
                        store := (store w)(project_id p \<mapsto> p)\<rparr>))"

subsection \<open>The steps of a sync run\<close>

definition updateDir :: "Env \<Rightarrow> string \<Rightarrow> string \<Rightarrow> FilePermissions \<Rightarrow> unit SyncTask" where
  "updateDir env projectDirPath projectDir perms =
     (let systemFilePath = path_join env [projectDir, projectDirPath] in
      chain (perform (CreateProjectDir systemFilePath (perms = perm_r))
               (\<lambda>h. api_createProjectDir env h systemFilePath (perms = perm_r)))
        (\<lambda>r. case r of
                Inl reason \<Rightarrow> task_left (fileSystemCorrupted projectDir reason)
              | Inr u \<Rightarrow> task_right ()))"

definition writeSingeFile ::
  "Env \<Rightarrow> string \<Rightarrow> ProjectId \<Rightarrow> string \<Rightarrow> int \<Rightarrow> FilePermissions \<Rightarrow> FileEntryType
     \<Rightarrow> File SyncTask" where
  "writeSingeFile env projectFilePath pid projectDir ver perms ty =
     (let systemFilePath = path_join env [projectDir, projectFilePath] in
      chain
        (chain (perform (CreateProjectPath projectDir)
                  (\<lambda>h. api_createProjectPath env h projectDir))
           (\<lambda>r. case r of
                   Inl reason \<Rightarrow> task_left (fileSystemCorrupted projectDir reason)
                 | Inr u \<Rightarrow>
                     chain
                       (chain (perform (ApiRequest GET (project_file pid)
                                          (payload_path projectFilePath))
                                 (\<lambda>h. http_projectFile env h pid projectFilePath))
                          (\<lambda>r. case r of
                                  Inl err \<Rightarrow> fromHttpError err
                                | Inr fileContent \<Rightarrow> task_right fileContent))
                       (\<lambda>fileContent.
                          chain (perform (WriteProjectFile systemFilePath fileContent
                                            (perms = perm_r))
                                   (\<lambda>h. api_writeProjectFile env h systemFilePath fileContent
                                          (perms = perm_r)))
                            (\<lambda>r. case r of
                                    Inl reason \<Rightarrow>
                                      task_left (fileSystemCorrupted projectDir reason)
                                  | Inr u \<Rightarrow> task_right ()))))
        (\<lambda>_. chain (perform (GetFileHash systemFilePath)
                       (\<lambda>h. api_getFileHash env h systemFilePath))
                (\<lambda>r. case r of
                        Inl reason \<Rightarrow> task_left (fileSystemCorrupted projectDir reason)
                      | Inr hashed \<Rightarrow>
                          task_right \<lparr>path = projectFilePath, type = ty, version = ver,
                                      permissions = perms, File.hash = hashed\<rparr>)))"

text \<open>The result of \<^verbatim>\<open>removeFile\<close> is dropped by \<^verbatim>\<open>task.chainFirst\<close>.\<close>

definition deleteSingeFile :: "Env \<Rightarrow> string \<Rightarrow> string \<Rightarrow> unit SyncTask" where
  "deleteSingeFile env projectFilePath projectDir =
     perform (RemoveFile (path_join env [projectDir, projectFilePath])) (\<lambda>h. ())"

text \<open>\<^verbatim>\<open>addHash\<close> throws what \<^verbatim>\<open>getFileHash\<close> fails with.\<close>

definition addHash :: "Env \<Rightarrow> string \<Rightarrow> string \<Rightarrow> LocalFileState SyncTask" where
  "addHash env projectDir p =
     (let systemFilePath = path_join env [projectDir, p] in
      chain (perform (GetFileHash systemFilePath) (\<lambda>h. api_getFileHash env h systemFilePath))
        (\<lambda>r. case r of
                Inl e \<Rightarrow> task_rejected e
              | Inr hashed \<Rightarrow>
                  task_right \<lparr>path = p, type = type_file, LocalFileState.hash = hashed\<rparr>))"

definition getProjectFilesLocal :: "Env \<Rightarrow> string \<Rightarrow> FileEntry list SyncTask" where
  "getProjectFilesLocal env projectDir =
     chain (perform (ReadDirTree projectDir) (\<lambda>h. fs_readDirTree env h projectDir))
       (\<lambda>r. case r of
               Inl message \<Rightarrow> task_left (fileSystemCorrupted projectDir message)
             | Inr entries \<Rightarrow>
                 task_outcome
                   (traverseArray_par
                      (map (\<lambda>e. case path_stripAncestor env projectDir (path e) of
                                   Inl message \<Rightarrow> Left (fileSystemCorrupted projectDir message)
                                 | Inr relative \<Rightarrow> Right \<lparr>path = relative, type = type e\<rparr>)
                         (filter isFile (filter (file_isVisibleFile env) entries)))))"

definition getProjectInfoLocal ::
  "Env \<Rightarrow> string \<Rightarrow> LocalProjectValue \<Rightarrow> LocalFileState list SyncTask" where
  "getProjectInfoLocal env projectDir _ =
     chain (getProjectFilesLocal env projectDir)
       (\<lambda>fs. traverse_par (\<lambda>e. addHash env projectDir (path e)) fs)"

definition getDirToUpdate :: "'a RemoteFileInfo_scheme list \<Rightarrow> 'a RemoteFileInfo_scheme list" where
  "getDirToUpdate projectInfoRemote = filter (\<lambda>f. \<not> isFile f) projectInfoRemote"

definition getProjectInfoRemote :: "Env \<Rightarrow> ProjectId \<Rightarrow> ProjectInfo SyncTask" where
  "getProjectInfoRemote env pid =
     chain (perform (ApiRequest GET (project_info pid) payload_none)
              (\<lambda>h. http_projectInfo env h pid))
       (\<lambda>r. case r of Inl err \<Rightarrow> fromHttpError err | Inr info \<Rightarrow> task_right info)"

definition getProjectDirRelative :: "Env \<Rightarrow> 'a ProjectMetadata_scheme \<Rightarrow> string" where
  "getProjectDirRelative env m =
     path_join env [path_escape env (semester m), path_escape env (courseName m),
                    path_escape env (exerciseName m), path_escape env (taskName m)]"

definition uploadChangedFiles ::
  "Env \<Rightarrow> string \<Rightarrow> ProjectId \<Rightarrow> string \<Rightarrow> LocalFileChange list \<Rightarrow> unit SyncTask" where
  "uploadChangedFiles env fileName pid projectDir localChanges =
     (let uploadFiles =
            map path (filter (\<lambda>c. case LocalFileChange.change c of
                                     L_noChange \<Rightarrow> False
                                   | L_added \<Rightarrow> True
                                   | L_removed \<Rightarrow> False
                                   | L_updated \<Rightarrow> True)
                        localChanges)
      in chain (chain (perform TempDir (\<lambda>h. os_tempDir env h))
                  (\<lambda>r. case r of
                          Inl e \<Rightarrow> task_rejected e
                        | Inr tempDir \<Rightarrow> task_right (path_join env [tempDir, fileName])))
           (\<lambda>archivePath.
              chain (perform (BuildTar archivePath projectDir uploadFiles)
                       (\<lambda>h. api_buildTar env h archivePath projectDir uploadFiles))
                (\<lambda>tarHash.
                   let removeFiles =
                         map path (filter (\<lambda>c. case LocalFileChange.change c of
                                                  L_noChange \<Rightarrow> False
                                                | L_added \<Rightarrow> False
                                                | L_removed \<Rightarrow> True
                                                | L_updated \<Rightarrow> False)
                                     localChanges)
                   in chain (if uploadFiles = [] then task_right []
                             else chain (perform (ReadBinaryFile archivePath)
                                           (\<lambda>h. fs_readBinaryFile env h archivePath))
                                    (\<lambda>r. case r of
                                            Inl e \<Rightarrow> task_rejected e
                                          | Inr bytes \<Rightarrow> task_right bytes))
                        (\<lambda>body.
                           let jwtPayload =
                                 (if uploadFiles = [] then payload_files None removeFiles
                                  else payload_files (Some tarHash) removeFiles)
                           in chain (perform (ApiRequest POST (project_files pid) jwtPayload)
                                       (\<lambda>h. http_projectFiles env h pid jwtPayload body))
                                (\<lambda>r. case r of
                                        Inl err \<Rightarrow> fromHttpError err
                                      | Inr info \<Rightarrow> task_right ())))))"

text \<open>
  The decimal digits of a number, for the name of the archive (the conversion of the
  template literal); the first argument bounds the number of digits.
\<close>

fun digits :: "nat \<Rightarrow> nat \<Rightarrow> string" where
  "digits 0 n = []"
| "digits (Suc k) n =
     (if n < 10 then [char_of (48 + n)]
      else digits k (n div 10) @ [char_of (48 + n mod 10)])"

definition string_of_nat :: "nat \<Rightarrow> string" where
  "string_of_nat n = digits (Suc n) n"

text \<open>\<^verbatim>\<open>dir.path.split('/').length\<close>.\<close>

definition path_depth :: "string \<Rightarrow> nat" where
  "path_depth p = Suc (length (filter (\<lambda>c. c = CHR ''/'') p))"

text \<open>
  The value bound to \<^verbatim>\<open>updatedProjectInfo\<close>: the inventory fetched again, its files hashed
  one after the other.
\<close>

definition updatedProjectInfo :: "Env \<Rightarrow> ProjectId \<Rightarrow> string \<Rightarrow> File list SyncTask" where
  "updatedProjectInfo env pid projectDir =
     chain (getProjectInfoRemote env pid)
       (\<lambda>projectInfoRemote.
          traverse_seq
            (\<lambda>f. chain (addHash env projectDir (path f))
                    (\<lambda>hashed. task_right (RemoteFileInfo.extend f
                                             (File.fields (LocalFileState.hash hashed)))))
            (filter isFile (info_files projectInfoRemote)))"

text \<open>The last step, \<^verbatim>\<open>// store new state\<close>.\<close>

definition storeNewState :: "Env \<Rightarrow> Project \<Rightarrow> File list \<Rightarrow> string \<Rightarrow> unit SyncTask" where
  "storeNewState env project updatedFiles projectDirRelative =
     chain (perform TimeNow (\<lambda>h. time_now env h))
       (\<lambda>now. upsertOne
                 (local_of project updatedFiles projectDirRelative now
                    (case project of
                       Remote m \<Rightarrow> synced unknown
                     | Local v \<Rightarrow> syncState v)))"

definition useProjectSync :: "Env \<Rightarrow> Project \<Rightarrow> ForceSyncDirection option \<Rightarrow> unit SyncTask" where
  "useProjectSync env project force =
     chain (chain (perform (SettingRead ''projectDir'') (\<lambda>h. api_settingRead env h ''projectDir''))
              (\<lambda>r. case r of None \<Rightarrow> task_left projectDirMissing | Some dir \<Rightarrow> task_right dir))
       (\<lambda>rootDir.
     let projectDirRelative =
           (case project of
              Remote m \<Rightarrow> getProjectDirRelative env m
            | Local v \<Rightarrow> basePath v);
         projectDir = path_join env [rootDir, projectDirRelative];
         projectInfoPrevious = (case project of Remote m \<Rightarrow> None | Local v \<Rightarrow> Some (files v))
     in
     chain (getProjectInfoRemote env (project_id project))
       (\<lambda>projectInfoRemote.
     chain (case project of
              Remote m \<Rightarrow> task_right None
            | Local v \<Rightarrow> chain (getProjectInfoLocal env projectDir v) (\<lambda>l. task_right (Some l)))
       (\<lambda>projectInfoLocal.
     let remoteChanges =
           sync_remoteChanges force projectInfoPrevious (info_files projectInfoRemote);
         localChanges = sync_localChanges force projectInfoLocal projectInfoPrevious
     in
     chain (case checkConflicts localChanges remoteChanges of
              Inl e \<Rightarrow> task_left e
            | Inr u \<Rightarrow> task_right ())
       (\<lambda>_.
     chain (case localChanges of
              None \<Rightarrow> task_right None
            | Some changes \<Rightarrow>
                chain (task_outcome
                         (getFilesToUpload (path_dirname env) (path_basename env)
                            (file_isValidFileName env) (file_isValidDirName env)
                            changes (info_files projectInfoRemote)))
                  (\<lambda>u. task_right (Some u)))
       (\<lambda>filesToUpload.
     let filesToDownload =
           map_option (getFilesToDownload (info_files projectInfoRemote)) remoteChanges;
         filesToDelete = map_option getFilesToDelete remoteChanges
     in
     chain (case filesToUpload of
              None \<Rightarrow> task_right ()
            | Some toUpload \<Rightarrow>
                chain (perform TimeNow (\<lambda>h. time_now env h))
                  (\<lambda>now. uploadChangedFiles env
                            (''project_'' @ project_id project @ ''_'' @ string_of_nat now
                               @ ''.tar.br'')
                            (project_id project) projectDir toUpload))
       (\<lambda>_.
     chain (chain (traverse_seq
                     (\<lambda>d. updateDir env (path d) projectDir (permissions d))
                     (sort_key (\<lambda>d. path_depth (path d))
                        (getDirToUpdate (info_files projectInfoRemote))))
              (\<lambda>_. case filesToDownload of
                      None \<Rightarrow> task_right ()
                    | Some toDownload \<Rightarrow>
                        chain (traverse_seq
                                 (\<lambda>i. writeSingeFile env (path i) (project_id project) projectDir
                                         (version i) (permissions i) (type i))
                                 toDownload)
                          (\<lambda>_. task_right ())))
       (\<lambda>_.
     chain (case filesToDelete of
              None \<Rightarrow> task_right ()
            | Some toDelete \<Rightarrow>
                chain (traverse_seq (\<lambda>c. deleteSingeFile env (path c) projectDir) toDelete)
                  (\<lambda>_. task_right ()))
       (\<lambda>_.
     chain (updatedProjectInfo env (project_id project) projectDir)
       (\<lambda>updatedFiles.
     chain (storeNewState env project updatedFiles projectDirRelative)
       (\<lambda>_. task_right ()))))))))))"

subsection \<open>Predicates on tasks\<close>

text \<open>
  A task keeps to \<open>P\<close> when, from every world, it only adds events that satisfy \<open>P\<close> and
  leaves the store as it is unless one of these events is an upsert.
\<close>

definition preserves :: "(Event \<Rightarrow> bool) \<Rightarrow> 'a SyncTask \<Rightarrow> bool" where
  "preserves P m \<longleftrightarrow>
     (\<forall>w. \<exists>es. events (snd (m w)) = events w @ es \<and> list_all P es \<and>
               ((\<forall>p. UpsertOne p \<notin> set es) \<longrightarrow> store (snd (m w)) = store w))"

text \<open>A task that does not come to a right value leaves the store alone and upserts nothing.\<close>

definition uncommitted :: "'a SyncTask \<Rightarrow> bool" where
  "uncommitted m \<longleftrightarrow>
     (\<forall>w. (\<forall>u. fst (m w) \<noteq> Right u) \<longrightarrow>
          store (snd (m w)) = store w \<and>
          (\<exists>es. events (snd (m w)) = events w @ es \<and> (\<forall>p. UpsertOne p \<notin> set es)))"

text \<open>A task that does not fail with \<^verbatim>\<open>conflictingChanges\<close>, whatever the world.\<close>

definition conflict_free :: "'a SyncTask \<Rightarrow> bool" where
  "conflict_free m \<longleftrightarrow> (\<forall>w. fst (m w) \<noteq> Left conflictingChanges)"

text \<open>
  A successful task comes, by events that are no upsert and with the store as it was, to a
  world from which the rest of it is as \<open>R\<close> says.
\<close>

definition reaches :: "(World \<Rightarrow> World \<Rightarrow> bool) \<Rightarrow> 'a SyncTask \<Rightarrow> bool" where
  "reaches R m \<longleftrightarrow>
     (\<forall>w u w'. m w = (Right u, w') \<longrightarrow>
        (\<exists>es w1. events w1 = events w @ es \<and> (\<forall>p. UpsertOne p \<notin> set es) \<and>
                 store w1 = store w \<and> R w1 w'))"

text \<open>
  The last phase of a successful run, from the world \<open>w\<close> to the world \<open>w'\<close> the run ends
  in: the inventory is requested in \<open>w\<close>, the files of the answer are hashed one after the
  other below the project directory, the clock is read, and the project is upserted with
  these files and hashes.
\<close>

definition committed :: "Env \<Rightarrow> Project \<Rightarrow> string \<Rightarrow> World \<Rightarrow> World \<Rightarrow> bool" where
  "committed env project rootDir w w' \<longleftrightarrow>
     (\<exists>v info.
        let pid = project_id project;
            projectDir = path_join env [rootDir, basePath v];
            fetch = ApiRequest GET (project_info pid) payload_none;
            reads = map (\<lambda>f. GetFileHash (path_join env [projectDir, path f]))
        in http_projectInfo env (events w) pid = Inr info \<and>
           map RemoteFileInfo.truncate (files v) = filter isFile (info_files info) \<and>
           (\<forall>i<length (files v).
              api_getFileHash env (events w @ fetch # reads (take i (files v)))
                (path_join env [projectDir, path (files v ! i)])
              = Inr (File.hash (files v ! i))) \<and>
           events w' = events w @ fetch # reads (files v) @ [TimeNow, UpsertOne (Local v)] \<and>
           syncedAt v = time_now env (events w @ fetch # reads (files v)) \<and>
           store w' = (store w)(pid \<mapsto> Local v) \<and>
           basePath v = (case project of
                           Remote m \<Rightarrow> getProjectDirRelative env m
                         | Local pv \<Rightarrow> basePath pv) \<and>
           syncState v = (case project of
                            Remote m \<Rightarrow> synced unknown
                          | Local pv \<Rightarrow> syncState pv) \<and>
           ProjectMetadata.truncate v = (case project of
                                           Remote m \<Rightarrow> m
                                         | Local pv \<Rightarrow> ProjectMetadata.truncate pv))"

subsection \<open>An example world\<close>

text \<open>
  A world for evaluating runs: the server lists one writable file \<^verbatim>\<open>a.txt\<close> at version
  \<open>2\<close>, the project directory holds \<^verbatim>\<open>a.txt\<close> with hash \<^verbatim>\<open>H2\<close>, every call succeeds, and
  the clock advances with the events.
\<close>

definition example_basename :: "string \<Rightarrow> string option" where
  "example_basename p =
     (if p = ''.'' \<or> p = ''/'' then None
      else Some (rev (takeWhile (\<lambda>c. c \<noteq> CHR ''/'') (rev p))))"

definition example_stripAncestor :: "string \<Rightarrow> string \<Rightarrow> string + string" where
  "example_stripAncestor root p =
     (if take (Suc (length root)) p = root @ ''/'' then Inr (drop (Suc (length root)) p)
      else Inl ''not below the ancestor'')"

definition example_env :: Env where
  "example_env =
     \<lparr>path_join = join_slash,
      path_escape = (\<lambda>s. s),
      path_dirname = posix_dirname,
      path_basename = example_basename,
      path_stripAncestor = example_stripAncestor,
      file_isVisibleFile = (\<lambda>e. True),
      file_isValidFileName = (\<lambda>n. n \<noteq> []),
      file_isValidDirName = (\<lambda>n. n \<noteq> []),
      api_settingRead = (\<lambda>h k. if k = ''projectDir'' then Some ''/w'' else None),
      fs_readDirTree = (\<lambda>h d. Inr [\<lparr>path = d @ ''/a.txt'', type = type_file\<rparr>]),
      api_getFileHash = (\<lambda>h p. Inr ''H2''),
      os_tempDir = (\<lambda>h. Inr ''/tmp''),
      fs_readBinaryFile = (\<lambda>h p. Inr ''archive''),
      api_buildTar = (\<lambda>h a d fs. ''T1''),
      api_createProjectDir = (\<lambda>h p b. Inr ()),
      api_createProjectPath = (\<lambda>h p. Inr ()),
      api_writeProjectFile = (\<lambda>h p c b. Inr ()),
      http_projectInfo =
        (\<lambda>h i. Inr \<lparr>info_id = i,
                      info_files = [\<lparr>path = ''a.txt'', type = type_file, version = 2,
                                     permissions = perm_rw\<rparr>]\<rparr>),
      http_projectFile = (\<lambda>h i p. Inr ''content''),
      http_projectFiles =
        (\<lambda>h i j b. Inr \<lparr>info_id = i,
                          info_files = [\<lparr>path = ''a.txt'', type = type_file, version = 3,
                                         permissions = perm_rw\<rparr>]\<rparr>),
      time_now = (\<lambda>h. 1000 + length h)\<rparr>"

definition example_metadata :: ProjectMetadata where
  "example_metadata =
     \<lparr>projectId = ''p1'', semester = ''2024S'', courseName = ''c'', exerciseName = ''e'',
      taskName = ''t'', taskOrder = 0, exerciseOrder = 0\<rparr>"

definition example_local :: "string \<Rightarrow> int \<Rightarrow> SyncState \<Rightarrow> Project" where
  "example_local h v st =
     Local \<lparr>projectId = ''p1'', semester = ''2024S'', courseName = ''c'', exerciseName = ''e'',
            taskName = ''t'', taskOrder = 0, exerciseOrder = 0,
            files = [\<lparr>path = ''a.txt'', type = type_file, version = v, permissions = perm_rw,
                      File.hash = h\<rparr>],
            basePath = ''2024S/c/e/t'', syncedAt = 0, syncState = st\<rparr>"

definition example_world :: World where
  "example_world = \<lparr>events = [], store = (\<lambda>i. None)\<rparr>"

section \<open>Properties\<close>

lemma the_changes_fromArray: "the_changes (fromArray xs) = xs"
  by (simp add: the_changes_def fromArray_def)

lemma elem_eqPath: "elem eqPath a xs \<longleftrightarrow> path a \<in> path ` set xs"
  by (force simp: elem_def eqPath_def list_ex_iff image_iff)

lemma find_path_None: "find (\<lambda>l. path l = p) xs = None \<longleftrightarrow> p \<notin> path ` set xs"
  by (auto simp: find_None_iff)

lemma find_path_Some_mem: "find (\<lambda>l. path l = p) xs = Some l \<Longrightarrow> l \<in> set xs \<and> path l = p"
  by (auto simp: find_Some_iff)

lemma find_path_distinct:
  "distinct (map path xs) \<Longrightarrow> l \<in> set xs \<Longrightarrow> path l = p \<Longrightarrow> find (\<lambda>l. path l = p) xs = Some l"
  by (induction xs) (auto simp: image_iff)

lemma remote_removed_paths:
  "map path (remote_removed previous latest) =
     filter (\<lambda>p. p \<notin> path ` set (filter isFile latest)) (map path (filter isFile previous))"
  by (simp add: remote_removed_def difference_def elem_eqPath filter_map comp_def)

lemma remote_added_paths:
  "map path (remote_added previous latest) =
     filter (\<lambda>p. p \<notin> path ` set (filter isFile previous)) (map path (filter isFile latest))"
  by (simp add: remote_added_def difference_def elem_eqPath filter_map comp_def)

lemma remote_updated_paths:
  "map path (remote_updated previous latest) =
     map path (filter (\<lambda>ls. option_exists (\<lambda>cs. version cs \<noteq> version ls)
                         (find (\<lambda>cs. path cs = path ls) (filter isFile latest)))
           (filter isFile previous))"
  by (simp add: remote_updated_def comp_def)

lemma remote_removed_change: "c \<in> set (remote_removed previous latest) \<Longrightarrow> RemoteFileChange.change c = R_removed"
  by (auto simp: remote_removed_def)
lemma remote_added_change: "c \<in> set (remote_added previous latest) \<Longrightarrow> \<exists>v. RemoteFileChange.change c = R_added v"
  by (auto simp: remote_added_def)
lemma remote_updated_change: "c \<in> set (remote_updated previous latest) \<Longrightarrow> \<exists>v. RemoteFileChange.change c = R_updated v"
  by (auto simp: remote_updated_def)

lemma remote_removed_iff:
  "\<lparr>path = p, RemoteFileChange.change = R_removed\<rparr> \<in> set (remote_removed previous latest) \<longleftrightarrow>
     p \<in> path ` set (filter isFile previous) \<and> p \<notin> path ` set (filter isFile latest)"
  by (auto simp: remote_removed_def difference_def elem_eqPath image_iff)

lemma remote_added_iff:
  "\<lparr>path = p, RemoteFileChange.change = R_added v\<rparr> \<in> set (remote_added previous latest) \<longleftrightarrow>
     (\<exists>l\<in>set (filter isFile latest). path l = p \<and> version l = v) \<and> p \<notin> path ` set (filter isFile previous)"
  by (auto simp: remote_added_def difference_def elem_eqPath image_iff)

lemma remote_updated_iff_find:
  "\<lparr>path = p, RemoteFileChange.change = R_updated v\<rparr> \<in> set (remote_updated previous latest) \<longleftrightarrow>
     (\<exists>e\<in>set (filter isFile previous). path e = p \<and> version e = v \<and>
        (\<exists>l. find (\<lambda>l. path l = p) (filter isFile latest) = Some l \<and> version l \<noteq> v))"
  by (auto simp: remote_updated_def option_exists_def image_iff split: option.splits)

lemma remote_updated_iff:
  assumes "distinct (map path (filter isFile latest))"
  shows "\<lparr>path = p, RemoteFileChange.change = R_updated v\<rparr> \<in> set (remote_updated previous latest) \<longleftrightarrow>
     (\<exists>e\<in>set (filter isFile previous). \<exists>l\<in>set (filter isFile latest).
         path e = p \<and> path l = p \<and> version e = v \<and> version l \<noteq> version e)"
proof
  assume "\<lparr>path = p, RemoteFileChange.change = R_updated v\<rparr> \<in> set (remote_updated previous latest)"
  then obtain e l where e: "e \<in> set (filter isFile previous)" "path e = p" "version e = v"
    and l: "find (\<lambda>l. path l = p) (filter isFile latest) = Some l" "version l \<noteq> v"
    unfolding remote_updated_iff_find by blast
  from find_path_Some_mem[OF l(1)] e l(2) show
    "\<exists>e\<in>set (filter isFile previous). \<exists>l\<in>set (filter isFile latest).
         path e = p \<and> path l = p \<and> version e = v \<and> version l \<noteq> version e"
    by blast
next
  assume "\<exists>e\<in>set (filter isFile previous). \<exists>l\<in>set (filter isFile latest).
         path e = p \<and> path l = p \<and> version e = v \<and> version l \<noteq> version e"
  then obtain e l where e: "e \<in> set (filter isFile previous)" "path e = p" "version e = v"
    and l: "l \<in> set (filter isFile latest)" "path l = p" "version l \<noteq> version e"
    by blast
  from find_path_distinct[OF assms l(1) l(2)] e l(3)
  show "\<lparr>path = p, RemoteFileChange.change = R_updated v\<rparr> \<in> set (remote_updated previous latest)"
    unfolding remote_updated_iff_find by blast
qed

lemma remote_paths_distinct:
  assumes "distinct (map path (filter isFile previous))" "distinct (map path (filter isFile latest))"
  shows "distinct (map path (remote_removed previous latest @ remote_added previous latest
                               @ remote_updated previous latest))"
proof -
  have 1: "distinct (map path (remote_removed previous latest))"
    unfolding remote_removed_paths using assms(1) by (rule distinct_filter)
  have 2: "distinct (map path (remote_added previous latest))"
    unfolding remote_added_paths using assms(2) by (rule distinct_filter)
  have 3: "distinct (map path (remote_updated previous latest))"
    unfolding remote_updated_paths using assms(1) by (rule distinct_map_filter)
  have 4: "set (map path (remote_removed previous latest)) \<inter> set (map path (remote_added previous latest)) = {}"
    unfolding remote_removed_paths remote_added_paths by auto
  have 5: "set (map path (remote_removed previous latest)) \<inter> set (map path (remote_updated previous latest)) = {}"
    unfolding remote_removed_paths remote_updated_paths
    by (auto simp: option_exists_def find_path_None split: option.splits)
  have 6: "set (map path (remote_added previous latest)) \<inter> set (map path (remote_updated previous latest)) = {}"
    unfolding remote_added_paths remote_updated_paths by auto
  from 1 2 3 4 5 6 show ?thesis by (simp add: Int_Un_distrib)
qed

lemma remote_nil_iff:
  "remote_removed previous latest @ remote_added previous latest @ remote_updated previous latest = [] \<longleftrightarrow>
     path ` set (filter isFile previous) = path ` set (filter isFile latest) \<and>
     (\<forall>e\<in>set (filter isFile previous). \<forall>l. find (\<lambda>l. path l = path e) (filter isFile latest) = Some l
         \<longrightarrow> version l = version e)"
proof -
  have r: "remote_removed previous latest = [] \<longleftrightarrow>
             path ` set (filter isFile previous) \<subseteq> path ` set (filter isFile latest)"
    by (auto simp: remote_removed_def difference_def elem_eqPath filter_empty_conv)
  have a: "remote_added previous latest = [] \<longleftrightarrow>
             path ` set (filter isFile latest) \<subseteq> path ` set (filter isFile previous)"
    by (auto simp: remote_added_def difference_def elem_eqPath filter_empty_conv)
  have u: "remote_updated previous latest = [] \<longleftrightarrow>
     (\<forall>e\<in>set (filter isFile previous). \<forall>l. find (\<lambda>l. path l = path e) (filter isFile latest) = Some l
         \<longrightarrow> version l = version e)"
    by (auto simp: remote_updated_def filter_empty_conv option_exists_def split: option.splits)
  show ?thesis unfolding append_is_Nil_conv r a u by blast
qed


lemma local_removed_paths:
  "map path (local_removed previous latest) =
     filter (\<lambda>p. p \<notin> path ` set (filter isFile latest)) (map path (filter isFile previous))"
  by (simp add: local_removed_def difference_def elem_eqPath filter_map comp_def)

lemma local_added_paths:
  "map path (local_added previous latest) =
     filter (\<lambda>p. p \<notin> path ` set (filter isFile previous)) (map path (filter isFile latest))"
  by (simp add: local_added_def difference_def elem_eqPath filter_map comp_def)

lemma local_pairs_alt:
  "map (\<lambda>(previous, latest). \<lparr>path = path latest, LocalFileChange.change = L_updated\<rparr>)
        (filter (\<lambda>(previous, latest). LocalFileState.hash latest \<noteq> File.hash previous)
           (concat (map (\<lambda>previous.
                      case find (\<lambda>latest. eqPath previous latest) ls of
                        None \<Rightarrow> []
                      | Some latest \<Rightarrow> [(previous, latest)])
                    xs))) =
   map (\<lambda>e. \<lparr>path = path e, LocalFileChange.change = L_updated\<rparr>)
     (filter (\<lambda>e. option_exists (\<lambda>l. LocalFileState.hash l \<noteq> File.hash e)
                      (find (\<lambda>l. path l = path e) ls)) xs)"
proof (induction xs)
  case Nil
  show ?case by simp
next
  case (Cons x xs)
  have eq: "(\<lambda>latest. eqPath x latest) = (\<lambda>l. path l = path x)"
    by (auto simp: eqPath_def)
  show ?case
  proof (cases "find (\<lambda>l. path l = path x) ls")
    case None
    with Cons show ?thesis by (simp add: eq option_exists_def)
  next
    case (Some l)
    then have "path l = path x" by (auto simp: find_Some_iff)
    with Some Cons show ?thesis by (simp add: eq option_exists_def)
  qed
qed

lemma local_updated_alt:
  "local_updated previous latest =
     map (\<lambda>e. \<lparr>path = path e, LocalFileChange.change = L_updated\<rparr>)
       (filter (\<lambda>e. option_exists (\<lambda>l. LocalFileState.hash l \<noteq> File.hash e)
                      (find (\<lambda>l. path l = path e) (filter isFile latest)))
          (filter isFile previous))"
  unfolding local_updated_def Let_def by (rule local_pairs_alt)

lemma local_updated_paths:
  "map path (local_updated previous latest) =
     map path (filter (\<lambda>e. option_exists (\<lambda>l. LocalFileState.hash l \<noteq> File.hash e)
                      (find (\<lambda>l. path l = path e) (filter isFile latest)))
          (filter isFile previous))"
  by (simp add: local_updated_alt comp_def)

lemma local_removed_change: "c \<in> set (local_removed previous latest) \<Longrightarrow> LocalFileChange.change c = L_removed"
  by (auto simp: local_removed_def)
lemma local_added_change: "c \<in> set (local_added previous latest) \<Longrightarrow> LocalFileChange.change c = L_added"
  by (auto simp: local_added_def)
lemma local_updated_change: "c \<in> set (local_updated previous latest) \<Longrightarrow> LocalFileChange.change c = L_updated"
  by (auto simp: local_updated_alt)

lemma local_removed_iff:
  "\<lparr>path = p, LocalFileChange.change = L_removed\<rparr> \<in> set (local_removed previous latest) \<longleftrightarrow>
     p \<in> path ` set (filter isFile previous) \<and> p \<notin> path ` set (filter isFile latest)"
  by (auto simp: local_removed_def difference_def elem_eqPath image_iff)

lemma local_added_iff:
  "\<lparr>path = p, LocalFileChange.change = L_added\<rparr> \<in> set (local_added previous latest) \<longleftrightarrow>
     p \<in> path ` set (filter isFile latest) \<and> p \<notin> path ` set (filter isFile previous)"
  by (auto simp: local_added_def difference_def elem_eqPath image_iff)

lemma local_updated_iff_find:
  "\<lparr>path = p, LocalFileChange.change = L_updated\<rparr> \<in> set (local_updated previous latest) \<longleftrightarrow>
     (\<exists>e\<in>set (filter isFile previous). path e = p \<and>
        (\<exists>l. find (\<lambda>l. path l = p) (filter isFile latest) = Some l \<and>
             LocalFileState.hash l \<noteq> File.hash e))"
  by (auto simp: local_updated_alt option_exists_def image_iff split: option.splits)

lemma local_updated_iff:
  assumes "distinct (map path (filter isFile latest))"
  shows "\<lparr>path = p, LocalFileChange.change = L_updated\<rparr> \<in> set (local_updated previous latest) \<longleftrightarrow>
     (\<exists>e\<in>set (filter isFile previous). \<exists>l\<in>set (filter isFile latest).
         path e = p \<and> path l = p \<and> File.hash e \<noteq> LocalFileState.hash l)"
proof
  assume "\<lparr>path = p, LocalFileChange.change = L_updated\<rparr> \<in> set (local_updated previous latest)"
  then obtain e l where e: "e \<in> set (filter isFile previous)" "path e = p"
    and l: "find (\<lambda>l. path l = p) (filter isFile latest) = Some l"
           "LocalFileState.hash l \<noteq> File.hash e"
    unfolding local_updated_iff_find by blast
  from find_path_Some_mem[OF l(1)] e l(2) show
    "\<exists>e\<in>set (filter isFile previous). \<exists>l\<in>set (filter isFile latest).
         path e = p \<and> path l = p \<and> File.hash e \<noteq> LocalFileState.hash l"
    by metis
next
  assume "\<exists>e\<in>set (filter isFile previous). \<exists>l\<in>set (filter isFile latest).
         path e = p \<and> path l = p \<and> File.hash e \<noteq> LocalFileState.hash l"
  then obtain e l where e: "e \<in> set (filter isFile previous)" "path e = p"
    and l: "l \<in> set (filter isFile latest)" "path l = p" "File.hash e \<noteq> LocalFileState.hash l"
    by blast
  from find_path_distinct[OF assms l(1) l(2)] e l(3)
  show "\<lparr>path = p, LocalFileChange.change = L_updated\<rparr> \<in> set (local_updated previous latest)"
    unfolding local_updated_iff_find by metis
qed

lemma local_paths_distinct:
  assumes "distinct (map path (filter isFile previous))" "distinct (map path (filter isFile latest))"
  shows "distinct (map path (local_removed previous latest @ local_added previous latest
                               @ local_updated previous latest))"
proof -
  have 1: "distinct (map path (local_removed previous latest))"
    unfolding local_removed_paths using assms(1) by (rule distinct_filter)
  have 2: "distinct (map path (local_added previous latest))"
    unfolding local_added_paths using assms(2) by (rule distinct_filter)
  have 3: "distinct (map path (local_updated previous latest))"
    unfolding local_updated_paths using assms(1) by (rule distinct_map_filter)
  have 4: "set (map path (local_removed previous latest)) \<inter> set (map path (local_added previous latest)) = {}"
    unfolding local_removed_paths local_added_paths by auto
  have 5: "set (map path (local_removed previous latest)) \<inter> set (map path (local_updated previous latest)) = {}"
    unfolding local_removed_paths local_updated_paths
    by (auto simp: option_exists_def find_path_None split: option.splits)
  have 6: "set (map path (local_added previous latest)) \<inter> set (map path (local_updated previous latest)) = {}"
    unfolding local_added_paths local_updated_paths by auto
  from 1 2 3 4 5 6 show ?thesis by (simp add: Int_Un_distrib)
qed

lemma local_nil_iff:
  "local_removed previous latest @ local_added previous latest @ local_updated previous latest = [] \<longleftrightarrow>
     path ` set (filter isFile previous) = path ` set (filter isFile latest) \<and>
     (\<forall>e\<in>set (filter isFile previous). \<forall>l. find (\<lambda>l. path l = path e) (filter isFile latest) = Some l
         \<longrightarrow> LocalFileState.hash l = File.hash e)"
proof -
  have r: "local_removed previous latest = [] \<longleftrightarrow>
             path ` set (filter isFile previous) \<subseteq> path ` set (filter isFile latest)"
    by (auto simp: local_removed_def difference_def elem_eqPath filter_empty_conv)
  have a: "local_added previous latest = [] \<longleftrightarrow>
             path ` set (filter isFile latest) \<subseteq> path ` set (filter isFile previous)"
    by (auto simp: local_added_def difference_def elem_eqPath filter_empty_conv)
  have u: "local_updated previous latest = [] \<longleftrightarrow>
     (\<forall>e\<in>set (filter isFile previous). \<forall>l. find (\<lambda>l. path l = path e) (filter isFile latest) = Some l
         \<longrightarrow> LocalFileState.hash l = File.hash e)"
    by (auto simp: local_updated_alt filter_empty_conv option_exists_def split: option.splits)
  show ?thesis unfolding append_is_Nil_conv r a u by blast
qed

lemma getRemoteChanges_list:
  "the_changes (getRemoteChanges previous latest) =
     remote_removed previous latest @ remote_added previous latest @ remote_updated previous latest"
  by (simp add: getRemoteChanges_def the_changes_fromArray)

lemma getLocalChanges_list:
  "the_changes (getLocalChanges previous latest) =
     local_removed previous latest @ local_added previous latest @ local_updated previous latest"
  by (simp add: getLocalChanges_def the_changes_fromArray)


lemma remote_groups:
  "\<exists>rs as us. the_changes (getRemoteChanges previous latest) = rs @ as @ us \<and>
      (\<forall>c\<in>set rs. RemoteFileChange.change c = R_removed) \<and>
      (\<forall>c\<in>set as. \<exists>v. RemoteFileChange.change c = R_added v) \<and>
      (\<forall>c\<in>set us. \<exists>v. RemoteFileChange.change c = R_updated v) \<and>
      subseq (map path rs) (map path (filter isFile previous)) \<and>
      subseq (map path as) (map path (filter isFile latest)) \<and>
      subseq (map path us) (map path (filter isFile previous))"
proof (intro exI conjI)
  show "the_changes (getRemoteChanges previous latest) =
     remote_removed previous latest @ remote_added previous latest @ remote_updated previous latest"
    by (rule getRemoteChanges_list)
  show "\<forall>c\<in>set (remote_removed previous latest). RemoteFileChange.change c = R_removed"
    by (blast dest: remote_removed_change)
  show "\<forall>c\<in>set (remote_added previous latest). \<exists>v. RemoteFileChange.change c = R_added v"
    by (blast dest: remote_added_change)
  show "\<forall>c\<in>set (remote_updated previous latest). \<exists>v. RemoteFileChange.change c = R_updated v"
    by (blast dest: remote_updated_change)
  show "subseq (map path (remote_removed previous latest)) (map path (filter isFile previous))"
    unfolding remote_removed_paths by simp
  show "subseq (map path (remote_added previous latest)) (map path (filter isFile latest))"
    unfolding remote_added_paths by simp
  show "subseq (map path (remote_updated previous latest)) (map path (filter isFile previous))"
    unfolding remote_updated_paths by (intro subseq_map subseq_filter_left)
qed

lemma local_groups:
  "\<exists>rs as us. the_changes (getLocalChanges previous latest) = rs @ as @ us \<and>
      (\<forall>c\<in>set rs. LocalFileChange.change c = L_removed) \<and>
      (\<forall>c\<in>set as. LocalFileChange.change c = L_added) \<and>
      (\<forall>c\<in>set us. LocalFileChange.change c = L_updated) \<and>
      subseq (map path rs) (map path (filter isFile previous)) \<and>
      subseq (map path as) (map path (filter isFile latest)) \<and>
      subseq (map path us) (map path (filter isFile previous))"
proof (intro exI conjI)
  show "the_changes (getLocalChanges previous latest) =
     local_removed previous latest @ local_added previous latest @ local_updated previous latest"
    by (rule getLocalChanges_list)
  show "\<forall>c\<in>set (local_removed previous latest). LocalFileChange.change c = L_removed"
    by (blast dest: local_removed_change)
  show "\<forall>c\<in>set (local_added previous latest). LocalFileChange.change c = L_added"
    by (blast dest: local_added_change)
  show "\<forall>c\<in>set (local_updated previous latest). LocalFileChange.change c = L_updated"
    by (blast dest: local_updated_change)
  show "subseq (map path (local_removed previous latest)) (map path (filter isFile previous))"
    unfolding local_removed_paths by simp
  show "subseq (map path (local_added previous latest)) (map path (filter isFile latest))"
    unfolding local_added_paths by simp
  show "subseq (map path (local_updated previous latest)) (map path (filter isFile previous))"
    unfolding local_updated_paths by (intro subseq_map subseq_filter_left)
qed

lemma sorted_subseq: "subseq xs ys \<Longrightarrow> sorted ys \<Longrightarrow> sorted (xs :: 'a::linorder list)"
proof (induction rule: list_emb.induct)
  case (list_emb_Nil ys)
  show ?case by simp
next
  case (list_emb_Cons xs ys y)
  then show ?case by simp
next
  case (list_emb_Cons2 x y xs ys)
  from list_emb_Cons2(2) have "set xs \<subseteq> set ys" by (auto dest: list_emb_set)
  with list_emb_Cons2 show ?case by auto
qed

lemma sorted_map_const: "\<forall>x\<in>set xs. f x = (k::nat) \<Longrightarrow> sorted (map f xs)"
  by (induction xs) auto

lemma spec_ordered_remote_groups:
  assumes r: "\<forall>c\<in>set rs. RemoteFileChange.change c = R_removed"
    and a: "\<forall>c\<in>set as. \<exists>v. RemoteFileChange.change c = R_added v"
    and u: "\<forall>c\<in>set us. \<exists>v. RemoteFileChange.change c = R_updated v"
    and s: "sorted (map path rs)" "sorted (map path as)" "sorted (map path us)"
  shows "spec_ordered_remote (rs @ as @ us)"
proof -
  let ?rk = "\<lambda>c. remote_rank (RemoteFileChange.change c)"
  have rr: "\<forall>c\<in>set rs. ?rk c = 0" using r by simp
  have ra: "\<forall>c\<in>set as. ?rk c = 1" using a by fastforce
  have ru: "\<forall>c\<in>set us. ?rk c = 2" using u by fastforce
  have s0: "sorted (map ?rk (rs @ as @ us))"
    using rr ra ru sorted_map_const[OF rr] sorted_map_const[OF ra] sorted_map_const[OF ru]
    by (simp add: sorted_append)
  have f0: "filter (\<lambda>c. ?rk c = 0) (rs @ as @ us) = rs"
    using rr ra ru by (simp add: filter_id_conv filter_empty_conv)
  have f1: "filter (\<lambda>c. ?rk c = 1) (rs @ as @ us) = as"
    using rr ra ru by (simp add: filter_id_conv filter_empty_conv)
  have f2: "filter (\<lambda>c. ?rk c = 2) (rs @ as @ us) = us"
    using rr ra ru by (simp add: filter_id_conv filter_empty_conv)
  show ?thesis
    unfolding spec_ordered_remote_def f0 f1 f2 using s0 s by simp
qed


lemma spec_ordered_local_groups:
  assumes r: "\<forall>c\<in>set rs. LocalFileChange.change c = L_removed"
    and a: "\<forall>c\<in>set as. LocalFileChange.change c = L_added"
    and u: "\<forall>c\<in>set us. LocalFileChange.change c = L_updated"
    and s: "sorted (map path rs)" "sorted (map path as)" "sorted (map path us)"
  shows "spec_ordered_local (rs @ as @ us)"
proof -
  let ?rk = "\<lambda>c. local_rank (LocalFileChange.change c)"
  have rr: "\<forall>c\<in>set rs. ?rk c = 0" using r by simp
  have ra: "\<forall>c\<in>set as. ?rk c = 1" using a by simp
  have ru: "\<forall>c\<in>set us. ?rk c = 2" using u by simp
  have s0: "sorted (map ?rk (rs @ as @ us))"
    using rr ra ru sorted_map_const[OF rr] sorted_map_const[OF ra] sorted_map_const[OF ru]
    by (simp add: sorted_append)
  have f0: "filter (\<lambda>c. ?rk c = 0) (rs @ as @ us) = rs"
    using rr ra ru by (simp add: filter_id_conv filter_empty_conv)
  have f1: "filter (\<lambda>c. ?rk c = 1) (rs @ as @ us) = as"
    using rr ra ru by (simp add: filter_id_conv filter_empty_conv)
  have f2: "filter (\<lambda>c. ?rk c = 2) (rs @ as @ us) = us"
    using rr ra ru by (simp add: filter_id_conv filter_empty_conv)
  show ?thesis
    unfolding spec_ordered_local_def f0 f1 f2 using s0 s by simp
qed

lemma remote_sorted_inputs:
  assumes "sorted (map path (filter isFile previous))" "sorted (map path (filter isFile latest))"
  shows "spec_ordered_remote (the_changes (getRemoteChanges previous latest))"
proof -
  obtain rs as us where cs: "the_changes (getRemoteChanges previous latest) = rs @ as @ us"
    and r: "\<forall>c\<in>set rs. RemoteFileChange.change c = R_removed"
    and a: "\<forall>c\<in>set as. \<exists>v. RemoteFileChange.change c = R_added v"
    and u: "\<forall>c\<in>set us. \<exists>v. RemoteFileChange.change c = R_updated v"
    and sr: "subseq (map path rs) (map path (filter isFile previous))"
    and sa: "subseq (map path as) (map path (filter isFile latest))"
    and su: "subseq (map path us) (map path (filter isFile previous))"
    using remote_groups[of previous latest] by blast
  show ?thesis
    unfolding cs
    by (rule spec_ordered_remote_groups[OF r a u sorted_subseq[OF sr assms(1)]
          sorted_subseq[OF sa assms(2)] sorted_subseq[OF su assms(1)]])
qed

lemma local_sorted_inputs:
  assumes "sorted (map path (filter isFile previous))" "sorted (map path (filter isFile latest))"
  shows "spec_ordered_local (the_changes (getLocalChanges previous latest))"
proof -
  obtain rs as us where cs: "the_changes (getLocalChanges previous latest) = rs @ as @ us"
    and r: "\<forall>c\<in>set rs. LocalFileChange.change c = L_removed"
    and a: "\<forall>c\<in>set as. LocalFileChange.change c = L_added"
    and u: "\<forall>c\<in>set us. LocalFileChange.change c = L_updated"
    and sr: "subseq (map path rs) (map path (filter isFile previous))"
    and sa: "subseq (map path as) (map path (filter isFile latest))"
    and su: "subseq (map path us) (map path (filter isFile previous))"
    using local_groups[of previous latest] by blast
  show ?thesis
    unfolding cs
    by (rule spec_ordered_local_groups[OF r a u sorted_subseq[OF sr assms(1)]
          sorted_subseq[OF sa assms(2)] sorted_subseq[OF su assms(1)]])
qed

lemma remote_none_iff:
  assumes "distinct (map path (filter isFile latest))"
  shows "getRemoteChanges previous latest = None \<longleftrightarrow>
     path ` set (filter isFile previous) = path ` set (filter isFile latest) \<and>
     (\<forall>e\<in>set (filter isFile previous). \<forall>l\<in>set (filter isFile latest).
         path e = path l \<longrightarrow> version e = version l)"
proof -
  have "(\<forall>e\<in>set (filter isFile previous). \<forall>l.
           find (\<lambda>l. path l = path e) (filter isFile latest) = Some l \<longrightarrow> version l = version e) \<longleftrightarrow>
        (\<forall>e\<in>set (filter isFile previous). \<forall>l\<in>set (filter isFile latest).
           path e = path l \<longrightarrow> version e = version l)"
  proof (intro iffI ballI allI impI)
    fix e l
    assume h: "\<forall>e\<in>set (filter isFile previous). \<forall>l.
           find (\<lambda>l. path l = path e) (filter isFile latest) = Some l \<longrightarrow> version l = version e"
      and e: "e \<in> set (filter isFile previous)" and l: "l \<in> set (filter isFile latest)"
      and pl: "path e = path l"
    from find_path_distinct[OF assms l pl[symmetric]] h e show "version e = version l" by auto
  next
    fix e l
    assume h: "\<forall>e\<in>set (filter isFile previous). \<forall>l\<in>set (filter isFile latest).
           path e = path l \<longrightarrow> version e = version l"
      and e: "e \<in> set (filter isFile previous)"
      and f: "find (\<lambda>l. path l = path e) (filter isFile latest) = Some l"
    from find_path_Some_mem[OF f] h e show "version l = version e" by auto
  qed
  then show ?thesis
    using remote_nil_iff[of previous latest]
    by (simp add: getRemoteChanges_def fromArray_def)
qed

lemma local_none_iff:
  assumes "distinct (map path (filter isFile latest))"
  shows "getLocalChanges previous latest = None \<longleftrightarrow>
     path ` set (filter isFile previous) = path ` set (filter isFile latest) \<and>
     (\<forall>e\<in>set (filter isFile previous). \<forall>l\<in>set (filter isFile latest).
         path e = path l \<longrightarrow> File.hash e = LocalFileState.hash l)"
proof -
  have "(\<forall>e\<in>set (filter isFile previous). \<forall>l.
           find (\<lambda>l. path l = path e) (filter isFile latest) = Some l \<longrightarrow>
           LocalFileState.hash l = File.hash e) \<longleftrightarrow>
        (\<forall>e\<in>set (filter isFile previous). \<forall>l\<in>set (filter isFile latest).
           path e = path l \<longrightarrow> File.hash e = LocalFileState.hash l)"
  proof (intro iffI ballI allI impI)
    fix e l
    assume h: "\<forall>e\<in>set (filter isFile previous). \<forall>l.
           find (\<lambda>l. path l = path e) (filter isFile latest) = Some l \<longrightarrow> LocalFileState.hash l = File.hash e"
      and e: "e \<in> set (filter isFile previous)" and l: "l \<in> set (filter isFile latest)"
      and pl: "path e = path l"
    from find_path_distinct[OF assms l pl[symmetric]] h e show "File.hash e = LocalFileState.hash l" by auto
  next
    fix e l
    assume h: "\<forall>e\<in>set (filter isFile previous). \<forall>l\<in>set (filter isFile latest).
           path e = path l \<longrightarrow> File.hash e = LocalFileState.hash l"
      and e: "e \<in> set (filter isFile previous)"
      and f: "find (\<lambda>l. path l = path e) (filter isFile latest) = Some l"
    from find_path_Some_mem[OF f] h e show "LocalFileState.hash l = File.hash e" by auto
  qed
  then show ?thesis
    using local_nil_iff[of previous latest]
    by (simp add: getLocalChanges_def fromArray_def)
qed

text \<open>
  Claim C2. Both lists restricted to the entries of type \<^verbatim>\<open>'file'\<close>, and no path listed
  twice in either (a file's identity is its path), the changes reported are exactly: a
  removed record for every path of \<open>previous\<close> that is not in \<open>latest\<close>, an added record
  for every path of \<open>latest\<close> that is not in \<open>previous\<close>, an updated record for every path
  in both whose discriminator differs (the version for \<^verbatim>\<open>getRemoteChanges\<close>, the hash for
  \<^verbatim>\<open>getLocalChanges\<close>); there is no other record, no path has two records, and the result
  is none exactly when the two file sets agree in paths and discriminators.
\<close>

theorem change_detection_exact:
  fixes prevR :: "'a RemoteFileState_scheme list" and latR :: "'b RemoteFileState_scheme list"
    and prevL :: "'c File_scheme list" and latL :: "'d LocalFileState_scheme list"
  assumes "distinct (map path (filter isFile prevR))" and "distinct (map path (filter isFile latR))"
    and "distinct (map path (filter isFile prevL))" and "distinct (map path (filter isFile latL))"
  shows
    "(\<forall>p. \<lparr>path = p, RemoteFileChange.change = R_removed\<rparr>
            \<in> set (the_changes (getRemoteChanges prevR latR)) \<longleftrightarrow>
          p \<in> path ` set (filter isFile prevR) - path ` set (filter isFile latR)) \<and>
     (\<forall>p v. \<lparr>path = p, RemoteFileChange.change = R_added v\<rparr>
            \<in> set (the_changes (getRemoteChanges prevR latR)) \<longleftrightarrow>
          (\<exists>l\<in>set (filter isFile latR). path l = p \<and> version l = v) \<and>
          p \<notin> path ` set (filter isFile prevR)) \<and>
     (\<forall>p v. \<lparr>path = p, RemoteFileChange.change = R_updated v\<rparr>
            \<in> set (the_changes (getRemoteChanges prevR latR)) \<longleftrightarrow>
          (\<exists>e\<in>set (filter isFile prevR). \<exists>l\<in>set (filter isFile latR).
              path e = p \<and> path l = p \<and> version e = v \<and> version l \<noteq> version e)) \<and>
     R_noChange \<notin> RemoteFileChange.change ` set (the_changes (getRemoteChanges prevR latR)) \<and>
     distinct (map path (the_changes (getRemoteChanges prevR latR))) \<and>
     (getRemoteChanges prevR latR = None \<longleftrightarrow>
        path ` set (filter isFile prevR) = path ` set (filter isFile latR) \<and>
        (\<forall>e\<in>set (filter isFile prevR). \<forall>l\<in>set (filter isFile latR).
            path e = path l \<longrightarrow> version e = version l)) \<and>
     (\<forall>p. \<lparr>path = p, LocalFileChange.change = L_removed\<rparr>
            \<in> set (the_changes (getLocalChanges prevL latL)) \<longleftrightarrow>
          p \<in> path ` set (filter isFile prevL) - path ` set (filter isFile latL)) \<and>
     (\<forall>p. \<lparr>path = p, LocalFileChange.change = L_added\<rparr>
            \<in> set (the_changes (getLocalChanges prevL latL)) \<longleftrightarrow>
          p \<in> path ` set (filter isFile latL) - path ` set (filter isFile prevL)) \<and>
     (\<forall>p. \<lparr>path = p, LocalFileChange.change = L_updated\<rparr>
            \<in> set (the_changes (getLocalChanges prevL latL)) \<longleftrightarrow>
          (\<exists>e\<in>set (filter isFile prevL). \<exists>l\<in>set (filter isFile latL).
              path e = p \<and> path l = p \<and> File.hash e \<noteq> LocalFileState.hash l)) \<and>
     L_noChange \<notin> LocalFileChange.change ` set (the_changes (getLocalChanges prevL latL)) \<and>
     distinct (map path (the_changes (getLocalChanges prevL latL))) \<and>
     (getLocalChanges prevL latL = None \<longleftrightarrow>
        path ` set (filter isFile prevL) = path ` set (filter isFile latL) \<and>
        (\<forall>e\<in>set (filter isFile prevL). \<forall>l\<in>set (filter isFile latL).
            path e = path l \<longrightarrow> File.hash e = LocalFileState.hash l))"
proof -
  have rn: "getRemoteChanges prevR latR = None \<longleftrightarrow>
        path ` set (filter isFile prevR) = path ` set (filter isFile latR) \<and>
        (\<forall>e\<in>set (filter isFile prevR). \<forall>l\<in>set (filter isFile latR).
            path e = path l \<longrightarrow> version e = version l)"
    by (rule remote_none_iff[OF assms(2)])
  have ln: "getLocalChanges prevL latL = None \<longleftrightarrow>
        path ` set (filter isFile prevL) = path ` set (filter isFile latL) \<and>
        (\<forall>e\<in>set (filter isFile prevL). \<forall>l\<in>set (filter isFile latL).
            path e = path l \<longrightarrow> File.hash e = LocalFileState.hash l)"
    by (rule local_none_iff[OF assms(4)])
  show ?thesis
  proof (intro conjI allI rn ln)
  fix p v
  show "\<lparr>path = p, RemoteFileChange.change = R_removed\<rparr>
            \<in> set (the_changes (getRemoteChanges prevR latR)) \<longleftrightarrow>
          p \<in> path ` set (filter isFile prevR) - path ` set (filter isFile latR)"
    unfolding getRemoteChanges_list
    using remote_removed_iff[of p prevR latR]
    by (auto dest: remote_added_change remote_updated_change)
  show "\<lparr>path = p, RemoteFileChange.change = R_added v\<rparr>
            \<in> set (the_changes (getRemoteChanges prevR latR)) \<longleftrightarrow>
          (\<exists>l\<in>set (filter isFile latR). path l = p \<and> version l = v) \<and>
          p \<notin> path ` set (filter isFile prevR)"
    unfolding getRemoteChanges_list
    using remote_added_iff[of p v prevR latR]
    by (auto dest: remote_removed_change remote_updated_change)
  show "\<lparr>path = p, RemoteFileChange.change = R_updated v\<rparr>
            \<in> set (the_changes (getRemoteChanges prevR latR)) \<longleftrightarrow>
          (\<exists>e\<in>set (filter isFile prevR). \<exists>l\<in>set (filter isFile latR).
              path e = p \<and> path l = p \<and> version e = v \<and> version l \<noteq> version e)"
    unfolding getRemoteChanges_list
    using remote_updated_iff[OF assms(2), of p v prevR]
    by (auto dest: remote_removed_change remote_added_change)
  show "R_noChange \<notin> RemoteFileChange.change ` set (the_changes (getRemoteChanges prevR latR))"
    unfolding getRemoteChanges_list
    by (auto dest: remote_removed_change remote_added_change remote_updated_change)
  show "distinct (map path (the_changes (getRemoteChanges prevR latR)))"
    unfolding getRemoteChanges_list by (rule remote_paths_distinct[OF assms(1,2)])
  show "\<lparr>path = p, LocalFileChange.change = L_removed\<rparr>
            \<in> set (the_changes (getLocalChanges prevL latL)) \<longleftrightarrow>
          p \<in> path ` set (filter isFile prevL) - path ` set (filter isFile latL)"
    unfolding getLocalChanges_list
    using local_removed_iff[of p prevL latL]
    by (auto dest: local_added_change local_updated_change)
  show "\<lparr>path = p, LocalFileChange.change = L_added\<rparr>
            \<in> set (the_changes (getLocalChanges prevL latL)) \<longleftrightarrow>
          p \<in> path ` set (filter isFile latL) - path ` set (filter isFile prevL)"
    unfolding getLocalChanges_list
    using local_added_iff[of p prevL latL]
    by (auto dest: local_removed_change local_updated_change)
  show "\<lparr>path = p, LocalFileChange.change = L_updated\<rparr>
            \<in> set (the_changes (getLocalChanges prevL latL)) \<longleftrightarrow>
          (\<exists>e\<in>set (filter isFile prevL). \<exists>l\<in>set (filter isFile latL).
              path e = p \<and> path l = p \<and> File.hash e \<noteq> LocalFileState.hash l)"
    unfolding getLocalChanges_list
    using local_updated_iff[OF assms(4), of p prevL]
    by (auto dest: local_removed_change local_added_change)
  show "L_noChange \<notin> LocalFileChange.change ` set (the_changes (getLocalChanges prevL latL))"
    unfolding getLocalChanges_list
    by (auto dest: local_removed_change local_added_change local_updated_change)
  show "distinct (map path (the_changes (getLocalChanges prevL latL)))"
    unfolding getLocalChanges_list by (rule local_paths_distinct[OF assms(3,4)])
  qed
qed


theorem change_detection_exact_witness:
  "distinct (map path (filter isFile
      [\<lparr>path = ''a.txt'', type = type_file, version = 1\<rparr>,
       \<lparr>path = ''b.txt'', type = type_file, version = 1\<rparr>])) \<and>
   distinct (map path (filter isFile
      [\<lparr>path = ''a.txt'', type = type_file, version = 2\<rparr>,
       \<lparr>path = ''c.txt'', type = type_file, version = 1\<rparr>])) \<and>
   distinct (map path (filter isFile
      [\<lparr>path = ''a.txt'', type = type_file, version = 1, permissions = perm_rw, File.hash = ''H1''\<rparr>])) \<and>
   distinct (map path (filter isFile
      [\<lparr>path = ''a.txt'', type = type_file, LocalFileState.hash = ''H2''\<rparr>])) \<and>
   \<lparr>path = ''b.txt'', RemoteFileChange.change = R_removed\<rparr> \<in> set (the_changes (getRemoteChanges
      [\<lparr>path = ''a.txt'', type = type_file, version = 1\<rparr>,
       \<lparr>path = ''b.txt'', type = type_file, version = 1\<rparr>]
      [\<lparr>path = ''a.txt'', type = type_file, version = 2\<rparr>,
       \<lparr>path = ''c.txt'', type = type_file, version = 1\<rparr>])) \<and>
   \<lparr>path = ''a.txt'', LocalFileChange.change = L_updated\<rparr> \<in> set (the_changes (getLocalChanges
      [\<lparr>path = ''a.txt'', type = type_file, version = 1, permissions = perm_rw, File.hash = ''H1''\<rparr>]
      [\<lparr>path = ''a.txt'', type = type_file, LocalFileState.hash = ''H2''\<rparr>]))"
proof -
  let ?pR = "[\<lparr>path = ''a.txt'', type = type_file, version = 1\<rparr>,
       \<lparr>path = ''b.txt'', type = type_file, version = 1\<rparr>]"
  let ?lR = "[\<lparr>path = ''a.txt'', type = type_file, version = 2\<rparr>,
       \<lparr>path = ''c.txt'', type = type_file, version = 1\<rparr>]"
  let ?pL = "[\<lparr>path = ''a.txt'', type = type_file, version = 1, permissions = perm_rw, File.hash = ''H1''\<rparr>]"
  let ?lL = "[\<lparr>path = ''a.txt'', type = type_file, LocalFileState.hash = ''H2''\<rparr>]"
  have h1: "distinct (map path (filter isFile ?pR))" by (simp add: isFile_def)
  have h2: "distinct (map path (filter isFile ?lR))" by (simp add: isFile_def)
  have h3: "distinct (map path (filter isFile ?pL))" by (simp add: isFile_def)
  have h4: "distinct (map path (filter isFile ?lL))" by (simp add: isFile_def)
  note t = change_detection_exact[OF h1 h2 h3 h4]
  have "\<lparr>path = ''b.txt'', RemoteFileChange.change = R_removed\<rparr>
                 \<in> set (the_changes (getRemoteChanges ?pR ?lR)) \<longleftrightarrow>
               ''b.txt'' \<in> path ` set (filter isFile ?pR) - path ` set (filter isFile ?lR)"
    by (rule t[THEN conjunct1, THEN spec])
  then have c1: "\<lparr>path = ''b.txt'', RemoteFileChange.change = R_removed\<rparr>
                 \<in> set (the_changes (getRemoteChanges ?pR ?lR))"
    by (simp add: isFile_def)
  note t8 = t[THEN conjunct2, THEN conjunct2, THEN conjunct2, THEN conjunct2, THEN conjunct2,
      THEN conjunct2, THEN conjunct2, THEN conjunct2, THEN conjunct1]
  have "\<lparr>path = ''a.txt'', LocalFileChange.change = L_updated\<rparr>
                 \<in> set (the_changes (getLocalChanges ?pL ?lL)) \<longleftrightarrow>
          (\<exists>e\<in>set (filter isFile ?pL). \<exists>l\<in>set (filter isFile ?lL).
              path e = ''a.txt'' \<and> path l = ''a.txt'' \<and> File.hash e \<noteq> LocalFileState.hash l)"
    by (rule t8[THEN spec])
  then have c2: "\<lparr>path = ''a.txt'', LocalFileChange.change = L_updated\<rparr>
                 \<in> set (the_changes (getLocalChanges ?pL ?lL))"
    by (simp add: isFile_def)
  from h1 h2 h3 h4 c1 c2 show ?thesis by (intro conjI)
qed

text \<open>
  Claim C7, as amended. The changes are the removed records, then the added ones, then the
  updated ones; within each group the records keep the order of the list they are taken
  from (\<open>previous\<close> for removed and updated, \<open>latest\<close> for added). Nothing is sorted: the
  groups are alphabetical by path when the file entries of both inputs are.
\<close>

theorem change_order_follows_input:
  fixes prevR :: "'a RemoteFileState_scheme list" and latR :: "'b RemoteFileState_scheme list"
    and prevL :: "'c File_scheme list" and latL :: "'d LocalFileState_scheme list"
  shows
    "(\<exists>rs as us. the_changes (getRemoteChanges prevR latR) = rs @ as @ us \<and>
        (\<forall>c\<in>set rs. RemoteFileChange.change c = R_removed) \<and>
        (\<forall>c\<in>set as. \<exists>v. RemoteFileChange.change c = R_added v) \<and>
        (\<forall>c\<in>set us. \<exists>v. RemoteFileChange.change c = R_updated v) \<and>
        subseq (map path rs) (map path (filter isFile prevR)) \<and>
        subseq (map path as) (map path (filter isFile latR)) \<and>
        subseq (map path us) (map path (filter isFile prevR))) \<and>
     (\<exists>rs as us. the_changes (getLocalChanges prevL latL) = rs @ as @ us \<and>
        (\<forall>c\<in>set rs. LocalFileChange.change c = L_removed) \<and>
        (\<forall>c\<in>set as. LocalFileChange.change c = L_added) \<and>
        (\<forall>c\<in>set us. LocalFileChange.change c = L_updated) \<and>
        subseq (map path rs) (map path (filter isFile prevL)) \<and>
        subseq (map path as) (map path (filter isFile latL)) \<and>
        subseq (map path us) (map path (filter isFile prevL))) \<and>
     (sorted (map path (filter isFile prevR)) \<and> sorted (map path (filter isFile latR)) \<longrightarrow>
        spec_ordered_remote (the_changes (getRemoteChanges prevR latR))) \<and>
     (sorted (map path (filter isFile prevL)) \<and> sorted (map path (filter isFile latL)) \<longrightarrow>
        spec_ordered_local (the_changes (getLocalChanges prevL latL)))"
proof (intro conjI impI)
  show "\<exists>rs as us. the_changes (getRemoteChanges prevR latR) = rs @ as @ us \<and>
        (\<forall>c\<in>set rs. RemoteFileChange.change c = R_removed) \<and>
        (\<forall>c\<in>set as. \<exists>v. RemoteFileChange.change c = R_added v) \<and>
        (\<forall>c\<in>set us. \<exists>v. RemoteFileChange.change c = R_updated v) \<and>
        subseq (map path rs) (map path (filter isFile prevR)) \<and>
        subseq (map path as) (map path (filter isFile latR)) \<and>
        subseq (map path us) (map path (filter isFile prevR))"
    by (rule remote_groups)
  show "\<exists>rs as us. the_changes (getLocalChanges prevL latL) = rs @ as @ us \<and>
        (\<forall>c\<in>set rs. LocalFileChange.change c = L_removed) \<and>
        (\<forall>c\<in>set as. LocalFileChange.change c = L_added) \<and>
        (\<forall>c\<in>set us. LocalFileChange.change c = L_updated) \<and>
        subseq (map path rs) (map path (filter isFile prevL)) \<and>
        subseq (map path as) (map path (filter isFile latL)) \<and>
        subseq (map path us) (map path (filter isFile prevL))"
    by (rule local_groups)
next
  assume "sorted (map path (filter isFile prevR)) \<and> sorted (map path (filter isFile latR))"
  then show "spec_ordered_remote (the_changes (getRemoteChanges prevR latR))"
    by (simp add: remote_sorted_inputs)
next
  assume "sorted (map path (filter isFile prevL)) \<and> sorted (map path (filter isFile latL))"
  then show "spec_ordered_local (the_changes (getLocalChanges prevL latL))"
    by (simp add: local_sorted_inputs)
qed

theorem change_order_follows_input_witness:
  "sorted (map path (filter isFile
      [\<lparr>path = ''a.txt'', type = type_file, version = 1\<rparr>,
       \<lparr>path = ''b.txt'', type = type_file, version = 1\<rparr>])) \<and>
   sorted (map path (filter isFile
      [\<lparr>path = ''a.txt'', type = type_file, version = 2\<rparr>,
       \<lparr>path = ''c.txt'', type = type_file, version = 1\<rparr>])) \<and>
   spec_ordered_remote (the_changes (getRemoteChanges
      [\<lparr>path = ''a.txt'', type = type_file, version = 1\<rparr>,
       \<lparr>path = ''b.txt'', type = type_file, version = 1\<rparr>]
      [\<lparr>path = ''a.txt'', type = type_file, version = 2\<rparr>,
       \<lparr>path = ''c.txt'', type = type_file, version = 1\<rparr>])) \<and>
   sorted (map path (filter isFile
      [\<lparr>path = ''a.txt'', type = type_file, version = 1, permissions = perm_rw, File.hash = ''H1''\<rparr>])) \<and>
   sorted (map path (filter isFile
      [\<lparr>path = ''a.txt'', type = type_file, LocalFileState.hash = ''H2''\<rparr>])) \<and>
   spec_ordered_local (the_changes (getLocalChanges
      [\<lparr>path = ''a.txt'', type = type_file, version = 1, permissions = perm_rw, File.hash = ''H1''\<rparr>]
      [\<lparr>path = ''a.txt'', type = type_file, LocalFileState.hash = ''H2''\<rparr>]))"
proof -
  let ?pR = "[\<lparr>path = ''a.txt'', type = type_file, version = 1\<rparr>,
       \<lparr>path = ''b.txt'', type = type_file, version = 1\<rparr>]"
  let ?lR = "[\<lparr>path = ''a.txt'', type = type_file, version = 2\<rparr>,
       \<lparr>path = ''c.txt'', type = type_file, version = 1\<rparr>]"
  let ?pL = "[\<lparr>path = ''a.txt'', type = type_file, version = 1, permissions = perm_rw, File.hash = ''H1''\<rparr>]"
  let ?lL = "[\<lparr>path = ''a.txt'', type = type_file, LocalFileState.hash = ''H2''\<rparr>]"
  have h1: "sorted (map path (filter isFile ?pR))" by (simp add: isFile_def)
  have h2: "sorted (map path (filter isFile ?lR))" by (simp add: isFile_def)
  have h3: "sorted (map path (filter isFile ?pL))" by (simp add: isFile_def)
  have h4: "sorted (map path (filter isFile ?lL))" by (simp add: isFile_def)
  note t = change_order_follows_input[of ?pR ?lR ?pL ?lL, THEN conjunct2, THEN conjunct2]
  have r: "spec_ordered_remote (the_changes (getRemoteChanges ?pR ?lR))"
    by (rule mp[OF t[THEN conjunct1] conjI[OF h1 h2]])
  have l: "spec_ordered_local (the_changes (getLocalChanges ?pL ?lL))"
    by (rule mp[OF t[THEN conjunct2] conjI[OF h3 h4]])
  from h1 h2 r h3 h4 l show ?thesis by (intro conjI)
qed

text \<open>
  Claim C7 as stated fails: a baseline listing \<^verbatim>\<open>b.txt\<close> before \<^verbatim>\<open>a.txt\<close> against an empty
  inventory gives the two removed records in that order, which is not alphabetical.
\<close>

theorem change_order_counterexample:
  "getRemoteChanges
      [\<lparr>path = ''b.txt'', type = type_file, version = 1\<rparr>,
       \<lparr>path = ''a.txt'', type = type_file, version = 1\<rparr>]
      ([] :: RemoteFileState list)
    = Some [\<lparr>path = ''b.txt'', RemoteFileChange.change = R_removed\<rparr>,
            \<lparr>path = ''a.txt'', RemoteFileChange.change = R_removed\<rparr>] \<and>
   \<not> spec_ordered_remote
      [\<lparr>path = ''b.txt'', RemoteFileChange.change = R_removed\<rparr>,
       \<lparr>path = ''a.txt'', RemoteFileChange.change = R_removed\<rparr>]"
  by (simp add: getRemoteChanges_def remote_removed_def remote_added_def remote_updated_def
      fromArray_def difference_def elem_def isFile_def spec_ordered_remote_def option_exists_def)

text \<open>
  Claim C10. An updated record of \<^verbatim>\<open>getRemoteChanges\<close> carries the version of a baseline
  file of that path, and the first file of that path in the latest inventory has another
  version.
\<close>

theorem remote_updated_version_from_baseline:
  assumes "c \<in> set (the_changes (getRemoteChanges previous latest))"
    and "RemoteFileChange.change c = R_updated v"
  shows "\<exists>e\<in>set (filter isFile previous). path e = path c \<and> version e = v \<and>
           (\<exists>l. find (\<lambda>l. path l = path c) (filter isFile latest) = Some l \<and> version l \<noteq> v)"
proof -
  have c: "c = \<lparr>path = path c, RemoteFileChange.change = R_updated v\<rparr>"
    using assms(2) by simp
  from assms have "c \<in> set (remote_updated previous latest)"
    unfolding getRemoteChanges_list
    by (auto dest: remote_removed_change remote_added_change)
  with c have "\<lparr>path = path c, RemoteFileChange.change = R_updated v\<rparr>
                 \<in> set (remote_updated previous latest)" by simp
  then show ?thesis unfolding remote_updated_iff_find .
qed

theorem remote_updated_version_from_baseline_witness:
  "\<lparr>path = ''a.txt'', RemoteFileChange.change = R_updated 1\<rparr> \<in> set (the_changes (getRemoteChanges
      [\<lparr>path = ''a.txt'', type = type_file, version = 1\<rparr>]
      [\<lparr>path = ''a.txt'', type = type_file, version = 2\<rparr>])) \<and>
   (\<exists>e\<in>set (filter isFile [\<lparr>path = ''a.txt'', type = type_file, version = 1\<rparr>]).
       path e = ''a.txt'' \<and> version e = 1 \<and>
       (\<exists>l. find (\<lambda>l. path l = ''a.txt'')
               (filter isFile [\<lparr>path = ''a.txt'', type = type_file, version = 2\<rparr>]) = Some l \<and>
            version l \<noteq> 1))"
proof -
  let ?c = "\<lparr>path = ''a.txt'', RemoteFileChange.change = R_updated 1\<rparr>"
  let ?p = "[\<lparr>path = ''a.txt'', type = type_file, version = 1\<rparr>]"
  let ?l = "[\<lparr>path = ''a.txt'', type = type_file, version = 2\<rparr>]"
  have h1: "?c \<in> set (the_changes (getRemoteChanges ?p ?l))"
    by (simp add: getRemoteChanges_def remote_removed_def remote_added_def remote_updated_def
        fromArray_def difference_def elem_def isFile_def the_changes_def option_exists_def eqPath_def)
  have h2: "RemoteFileChange.change ?c = R_updated 1" by simp
  from remote_updated_version_from_baseline[OF h1 h2] h1 show ?thesis by simp
qed

subsection \<open>The conflict gate\<close>

lemma getConflicts_Some_iff:
  "getConflicts ls rs \<noteq> None \<longleftrightarrow> path ` set ls \<inter> path ` set rs \<noteq> {}"
  by (auto simp: getConflicts_def fromArray_def intersection_def elem_eqPath filter_empty_conv)

lemma checkConflicts_Inl_iff:
  "checkConflicts localChanges remoteChanges = Inl conflictingChanges \<longleftrightarrow>
      (\<exists>ls rs. localChanges = Some ls \<and> remoteChanges = Some rs \<and> ls \<noteq> [] \<and> rs \<noteq> [] \<and>
               path ` set ls \<inter> path ` set rs \<noteq> {})"
proof (cases localChanges)
  case None
  then show ?thesis by (simp add: checkConflicts_def sequenceS_def)
next
  case ls: (Some ls)
  show ?thesis
  proof (cases remoteChanges)
    case None
    with ls show ?thesis by (simp add: checkConflicts_def sequenceS_def)
  next
    case (Some rs)
    have "checkConflicts (Some ls) (Some rs) = Inl conflictingChanges \<longleftrightarrow>
            getConflicts ls rs \<noteq> None"
      by (simp add: checkConflicts_def sequenceS_def split: option.splits)
    also have "\<dots> \<longleftrightarrow> path ` set ls \<inter> path ` set rs \<noteq> {}"
      by (rule getConflicts_Some_iff)
    also have "\<dots> \<longleftrightarrow> ls \<noteq> [] \<and> rs \<noteq> [] \<and> path ` set ls \<inter> path ` set rs \<noteq> {}"
      by auto
    finally show ?thesis using ls Some by simp
  qed
qed

lemma checkConflicts_passes:
  "checkConflicts lc rc \<noteq> Inl conflictingChanges \<Longrightarrow> checkConflicts lc rc = Inr ()"
  by (simp add: checkConflicts_def split: option.splits)

lemma checkConflicts_no_remote: "checkConflicts lc None = Inr ()"
  by (simp add: checkConflicts_def sequenceS_def split: option.splits)

lemma checkConflicts_no_local: "checkConflicts None rc = Inr ()"
  by (simp add: checkConflicts_def sequenceS_def)

subsection \<open>Upload eligibility\<close>










text \<open>
  Claim C6 does not hold of the code. For a locally updated or removed file whose remote
  entry is read-only, \<^verbatim>\<open>getFilesToUpload\<close> fails with \<^verbatim>\<open>readOnlyFilesChanged\<close> whose path
  is the empty string, whatever the path of the file. The two evaluations below show it
  for an updated and for a removed file.
\<close>

theorem read_only_update_reports_empty_path:
  "getFilesToUpload dn bn vf vd
      [\<lparr>path = ''README.md'', LocalFileChange.change = L_updated\<rparr>]
      [\<lparr>path = ''README.md'', type = type_file, version = 1, permissions = perm_r\<rparr>]
    = Left (readOnlyFilesChanged [] ''File is read-only'')"
  by (simp add: getFilesToUpload_def uploadCheck_def isFileWritable_def traverseArray_par_def)

theorem read_only_remove_reports_empty_path:
  "getFilesToUpload dn bn vf vd
      [\<lparr>path = ''README.md'', LocalFileChange.change = L_removed\<rparr>]
      [\<lparr>path = ''README.md'', type = type_file, version = 1, permissions = perm_r\<rparr>]
    = Left (readOnlyFilesChanged [] ''File is read-only'')"
  by (simp add: getFilesToUpload_def uploadCheck_def isFileWritable_def traverseArray_par_def
      chain_outcome_def)

subsection \<open>The sync run: events and the store\<close>

named_theorems preserves_intros

lemma preservesD:
  assumes "preserves P m" "m w = (r, w')"
  obtains es where "events w' = events w @ es" "list_all P es"
    "(\<forall>p. UpsertOne p \<notin> set es) \<longrightarrow> store w' = store w"
  using assms unfolding preserves_def by (metis snd_conv)

lemma preserves_same:
  assumes "\<And>w. snd (m w) = w"
  shows "preserves P m"
  unfolding preserves_def using assms by simp

lemma preserves_task_right [preserves_intros]: "preserves P (task_right a)"
  by (rule preserves_same) (simp add: task_right_def)

lemma preserves_task_left [preserves_intros]: "preserves P (task_left e)"
  by (rule preserves_same) (simp add: task_left_def)

lemma preserves_task_rejected [preserves_intros]: "preserves P (task_rejected x)"
  by (rule preserves_same) (simp add: task_rejected_def)

lemma preserves_task_outcome [preserves_intros]: "preserves P (task_outcome r)"
  by (rule preserves_same) (simp add: task_outcome_def)

lemma preserves_perform [preserves_intros]: "P ev \<Longrightarrow> preserves P (perform ev answer)"
  unfolding preserves_def perform_def by simp

lemma preserves_upsertOne [preserves_intros]: "P (UpsertOne p) \<Longrightarrow> preserves P (upsertOne p)"
  unfolding preserves_def upsertOne_def by simp

lemma chain_cases:
  obtains (Right) a w1 where "m w = (Right a, w1)" "chain m f w = f a w1"
  | (Stop) r w1 where "m w = (r, w1)" "\<forall>a. r \<noteq> Right a" "chain m f w = (case r of
        Left e \<Rightarrow> Left e | Rejected x \<Rightarrow> Rejected x | Never \<Rightarrow> Never | Right a \<Rightarrow> undefined, w1)"
proof -
  obtain r w1 where mw: "m w = (r, w1)" by (cases "m w")
  show ?thesis
  proof (cases r)
    case (Right a)
    with mw have "chain m f w = f a w1" by (simp add: chain_def)
    with mw Right show ?thesis by (auto intro: that(1))
  next
    case (Left e)
    with mw show ?thesis by (intro that(2)[of r w1]) (auto simp: chain_def)
  next
    case (Rejected x)
    with mw show ?thesis by (intro that(2)[of r w1]) (auto simp: chain_def)
  next
    case Never
    with mw show ?thesis by (intro that(2)[of r w1]) (auto simp: chain_def)
  qed
qed

lemma preserves_chain [preserves_intros]:
  assumes m: "preserves P m" and f: "\<And>a. preserves P (f a)"
  shows "preserves P (chain m f)"
  unfolding preserves_def
proof (intro allI)
  fix w
  show "\<exists>es. events (snd (chain m f w)) = events w @ es \<and> list_all P es \<and>
               ((\<forall>p. UpsertOne p \<notin> set es) \<longrightarrow> store (snd (chain m f w)) = store w)"
  proof (cases rule: chain_cases[of m w f])
    case (Right a w1)
    from preservesD[OF m Right(1)] obtain es1 where
      1: "events w1 = events w @ es1" "list_all P es1"
         "(\<forall>p. UpsertOne p \<notin> set es1) \<longrightarrow> store w1 = store w" by blast
    obtain r2 w2 where fw: "f a w1 = (r2, w2)" by (cases "f a w1")
    from preservesD[OF f fw] obtain es2 where
      2: "events w2 = events w1 @ es2" "list_all P es2"
         "(\<forall>p. UpsertOne p \<notin> set es2) \<longrightarrow> store w2 = store w1" by blast
    from 1 2 have "events w2 = events w @ (es1 @ es2) \<and> list_all P (es1 @ es2) \<and>
               ((\<forall>p. UpsertOne p \<notin> set (es1 @ es2)) \<longrightarrow> store w2 = store w)"
      by auto
    then show ?thesis using Right(2) fw by (intro exI[of _ "es1 @ es2"]) simp
  next
    case (Stop r w1)
    from preservesD[OF m Stop(1)] obtain es1 where
      1: "events w1 = events w @ es1" "list_all P es1"
         "(\<forall>p. UpsertOne p \<notin> set es1) \<longrightarrow> store w1 = store w" by blast
    then show ?thesis using Stop(3) by (intro exI[of _ es1]) simp
  qed
qed

lemma preserves_traverse_seq [preserves_intros]:
  assumes "\<And>x. preserves P (f x)"
  shows "preserves P (traverse_seq f xs)"
  by (induction xs) (auto intro!: preserves_intros assms)

lemma run_all_preserves:
  assumes "\<And>x. preserves P (f x)"
  shows "\<exists>es. events (snd (run_all f xs w)) = events w @ es \<and> list_all P es \<and>
               ((\<forall>p. UpsertOne p \<notin> set es) \<longrightarrow> store (snd (run_all f xs w)) = store w)"
proof (induction xs arbitrary: w)
  case Nil
  show ?case by simp
next
  case (Cons x xs)
  obtain r w1 where fw: "f x w = (r, w1)" by (cases "f x w")
  from preservesD[OF assms fw] obtain es1 where
    1: "events w1 = events w @ es1" "list_all P es1"
       "(\<forall>p. UpsertOne p \<notin> set es1) \<longrightarrow> store w1 = store w" by blast
  obtain rs w2 where rw: "run_all f xs w1 = (rs, w2)" by (cases "run_all f xs w1")
  from Cons.IH[of w1] rw obtain es2 where
    2: "events w2 = events w1 @ es2" "list_all P es2"
       "(\<forall>p. UpsertOne p \<notin> set es2) \<longrightarrow> store w2 = store w1" by auto
  have "run_all f (x # xs) w = (r # rs, w2)" using fw rw by simp
  moreover from 1 2 have "events w2 = events w @ (es1 @ es2) \<and> list_all P (es1 @ es2) \<and>
               ((\<forall>p. UpsertOne p \<notin> set (es1 @ es2)) \<longrightarrow> store w2 = store w)"
    by auto
  ultimately show ?case by (intro exI[of _ "es1 @ es2"]) simp
qed

lemma preserves_traverse_par [preserves_intros]:
  assumes "\<And>x. preserves P (f x)"
  shows "preserves P (traverse_par f xs)"
  unfolding preserves_def
proof (intro allI)
  fix w
  obtain rs w1 where rw: "run_all f xs w = (rs, w1)" by (cases "run_all f xs w")
  then have "snd (traverse_par f xs w) = snd (run_all f xs w)"
    by (simp add: traverse_par_def)
  with run_all_preserves[OF assms, where xs = xs and w = w]
  show "\<exists>es. events (snd (traverse_par f xs w)) = events w @ es \<and> list_all P es \<and>
          ((\<forall>p. UpsertOne p \<notin> set es) \<longrightarrow> store (snd (traverse_par f xs w)) = store w)"
    by simp
qed

lemma preserves_case_option [preserves_intros]:
  "preserves P a \<Longrightarrow> (\<And>y. preserves P (b y)) \<Longrightarrow> preserves P (case x of None \<Rightarrow> a | Some y \<Rightarrow> b y)"
  by (cases x) auto

lemma preserves_case_sum [preserves_intros]:
  "(\<And>y. preserves P (a y)) \<Longrightarrow> (\<And>y. preserves P (b y)) \<Longrightarrow>
   preserves P (case x of Inl y \<Rightarrow> a y | Inr y \<Rightarrow> b y)"
  by (cases x) auto

lemma preserves_case_Project [preserves_intros]:
  "(\<And>y. preserves P (a y)) \<Longrightarrow> (\<And>y. preserves P (b y)) \<Longrightarrow>
   preserves P (case x of Remote y \<Rightarrow> a y | Local y \<Rightarrow> b y)"
  by (cases x) auto

lemma preserves_if [preserves_intros]:
  "preserves P a \<Longrightarrow> preserves P b \<Longrightarrow> preserves P (if c then a else b)"
  by simp

lemma preserves_fromHttpError [preserves_intros]: "preserves P (fromHttpError err)"
  unfolding fromHttpError_def by (cases err) (auto intro: preserves_intros)

text \<open>The steps of the run, one by one.\<close>

lemma preserves_updateDir:
  assumes "\<And>p b. P (CreateProjectDir p b)"
  shows "preserves P (updateDir env a b c)"
  unfolding updateDir_def Let_def by (intro preserves_intros assms)

lemma preserves_writeSingeFile:
  assumes "\<And>p. P (CreateProjectPath p)" "\<And>i j. P (ApiRequest GET (project_file i) j)"
    "\<And>p c b. P (WriteProjectFile p c b)" "\<And>p. P (GetFileHash p)"
  shows "preserves P (writeSingeFile env a b c d e f)"
  unfolding writeSingeFile_def Let_def by (intro preserves_intros assms)

lemma preserves_deleteSingeFile:
  assumes "\<And>p. P (RemoveFile p)"
  shows "preserves P (deleteSingeFile env a b)"
  unfolding deleteSingeFile_def by (intro preserves_intros assms)

lemma preserves_addHash:
  assumes "\<And>p. P (GetFileHash p)"
  shows "preserves P (addHash env a b)"
  unfolding addHash_def Let_def by (intro preserves_intros assms)

lemma preserves_getProjectFilesLocal:
  assumes "\<And>p. P (ReadDirTree p)"
  shows "preserves P (getProjectFilesLocal env a)"
  unfolding getProjectFilesLocal_def by (intro preserves_intros assms)

lemma preserves_getProjectInfoLocal:
  assumes "\<And>p. P (ReadDirTree p)" "\<And>p. P (GetFileHash p)"
  shows "preserves P (getProjectInfoLocal env a b)"
  unfolding getProjectInfoLocal_def
  by (intro preserves_intros preserves_getProjectFilesLocal preserves_addHash assms)

lemma preserves_getProjectInfoRemote:
  assumes "\<And>i. P (ApiRequest GET (project_info i) payload_none)"
  shows "preserves P (getProjectInfoRemote env a)"
  unfolding getProjectInfoRemote_def by (intro preserves_intros assms)

lemma preserves_uploadChangedFiles:
  assumes "P TempDir" "\<And>a b c. P (BuildTar a b c)" "\<And>p. P (ReadBinaryFile p)"
    "\<And>i j. P (ApiRequest POST (project_files i) j)"
  shows "preserves P (uploadChangedFiles env a b c d)"
  unfolding uploadChangedFiles_def Let_def by (intro preserves_intros assms)

lemma preserves_updatedProjectInfo:
  assumes "\<And>i. P (ApiRequest GET (project_info i) payload_none)" "\<And>p. P (GetFileHash p)"
  shows "preserves P (updatedProjectInfo env a b)"
  unfolding updatedProjectInfo_def
  by (intro preserves_intros preserves_getProjectInfoRemote preserves_addHash assms)


lemma preserves_storeNewState:
  assumes "P TimeNow" "\<And>p. P (UpsertOne p)"
  shows "preserves P (storeNewState env a b c)"
  unfolding storeNewState_def by (intro preserves_intros assms)

lemmas preserves_steps =
  preserves_updateDir preserves_writeSingeFile preserves_deleteSingeFile preserves_addHash
  preserves_getProjectFilesLocal preserves_getProjectInfoLocal preserves_getProjectInfoRemote
  preserves_uploadChangedFiles preserves_updatedProjectInfo preserves_storeNewState



lemma uncommitted_chain:
  assumes m: "preserves (\<lambda>ev. \<forall>p. ev \<noteq> UpsertOne p) m" and f: "\<And>a. uncommitted (f a)"
  shows "uncommitted (chain m f)"
  unfolding uncommitted_def
proof (intro allI impI)
  fix w
  assume nr: "\<forall>u. fst (chain m f w) \<noteq> Right u"
  show "store (snd (chain m f w)) = store w \<and>
          (\<exists>es. events (snd (chain m f w)) = events w @ es \<and> (\<forall>p. UpsertOne p \<notin> set es))"
  proof (cases rule: chain_cases[of m w f])
    case (Right a w1)
    from preservesD[OF m Right(1)] obtain es1 where
      1: "events w1 = events w @ es1" "list_all (\<lambda>ev. \<forall>p. ev \<noteq> UpsertOne p) es1"
         "(\<forall>p. UpsertOne p \<notin> set es1) \<longrightarrow> store w1 = store w" by blast
    from 1(2) have n1: "\<forall>p. UpsertOne p \<notin> set es1" by (auto simp: list_all_iff)
    from nr Right(2) have "\<forall>u. fst (f a w1) \<noteq> Right u" by simp
    with f[of a, unfolded uncommitted_def, rule_format, of w1] obtain es2 where
      2: "store (snd (f a w1)) = store w1" "events (snd (f a w1)) = events w1 @ es2"
         "\<forall>p. UpsertOne p \<notin> set es2" by blast
    from 1 n1 2 have "store (snd (f a w1)) = store w \<and>
        events (snd (f a w1)) = events w @ (es1 @ es2) \<and> (\<forall>p. UpsertOne p \<notin> set (es1 @ es2))"
      by auto
    then show ?thesis unfolding Right(2) by blast
  next
    case (Stop r w1)
    from preservesD[OF m Stop(1)] obtain es1 where
      1: "events w1 = events w @ es1" "list_all (\<lambda>ev. \<forall>p. ev \<noteq> UpsertOne p) es1"
         "(\<forall>p. UpsertOne p \<notin> set es1) \<longrightarrow> store w1 = store w" by blast
    from 1(2) have n1: "\<forall>p. UpsertOne p \<notin> set es1" by (auto simp: list_all_iff)
    with 1 show ?thesis unfolding Stop(3) by auto
  qed
qed

lemma uncommitted_storeNewState:
  "uncommitted (chain (storeNewState env project updatedFiles rel) (\<lambda>_. task_right ()))"
  unfolding uncommitted_def
  by (simp add: storeNewState_def chain_def perform_def upsertOne_def task_right_def)

lemma uncommitted_useProjectSync: "uncommitted (useProjectSync env project force)"
  unfolding useProjectSync_def Let_def
  by (intro uncommitted_chain uncommitted_storeNewState preserves_intros preserves_steps; simp)


lemma chain_task_right: "chain (task_right a) f = f a"
  by (simp add: chain_def task_right_def)

lemma sync_remoteChanges_push: "sync_remoteChanges (Some push) prev fs = None"
  by (simp add: sync_remoteChanges_def option_filter_def split: option.splits)

lemma sync_localChanges_pull: "sync_localChanges (Some pull) loc prev = None"
  by (simp add: sync_localChanges_def option_filter_def split: option.splits)

lemma sync_localChanges_no_baseline: "sync_localChanges force loc None = None"
  by (simp add: sync_localChanges_def option_filter_def sequenceS_def split: option.splits)

lemma preserves_push:
  "preserves (\<lambda>ev. (\<forall>i j. ev \<noteq> ApiRequest GET (project_file i) j) \<and>
                     (\<forall>p c b. ev \<noteq> WriteProjectFile p c b) \<and>
                     (\<forall>p. ev \<noteq> RemoveFile p))
     (useProjectSync env project (Some push))"
  unfolding useProjectSync_def Let_def
  apply (simp only: sync_remoteChanges_push option.map option.case)
  apply (intro preserves_intros preserves_updateDir preserves_getProjectInfoLocal
      preserves_getProjectInfoRemote preserves_uploadChangedFiles preserves_updatedProjectInfo
      preserves_storeNewState; simp)
  done

lemma preserves_remote:
  "preserves (\<lambda>ev. (\<forall>e j. ev \<noteq> ApiRequest POST e j) \<and>
                     (\<forall>a b c. ev \<noteq> BuildTar a b c) \<and>
                     (\<forall>p. ev \<noteq> ReadBinaryFile p) \<and> ev \<noteq> TempDir)
     (useProjectSync env (Remote m) force)"
  unfolding useProjectSync_def Let_def
  apply (simp only: Project.case chain_task_right sync_localChanges_no_baseline option.case)
  apply (intro preserves_intros preserves_updateDir preserves_writeSingeFile
      preserves_deleteSingeFile
      preserves_getProjectInfoRemote preserves_updatedProjectInfo
      preserves_storeNewState; simp)
  done

lemma remote_independent_of_checks:
  "useProjectSync (env\<lparr>path_dirname := dn, path_basename := bn, file_isValidFileName := vf,
                        file_isValidDirName := vd\<rparr>) (Remote m) force
     = useProjectSync env (Remote m) force"
  unfolding useProjectSync_def Let_def
  apply (simp only: Project.case chain_task_right sync_localChanges_no_baseline option.case)
  apply (simp add: getProjectInfoRemote_def updateDir_def writeSingeFile_def deleteSingeFile_def
      updatedProjectInfo_def addHash_def storeNewState_def getProjectDirRelative_def
      cong: option.case_cong sum.case_cong)
  done


lemma chain_Right_iff:
  "chain m f w = (Right b, w') \<longleftrightarrow> (\<exists>a w1. m w = (Right a, w1) \<and> f a w1 = (Right b, w'))"
proof (cases rule: chain_cases[of m w f])
  case (Right a w1)
  then show ?thesis by auto
next
  case (Stop r w1)
  then show ?thesis by (cases r) auto
qed




lemma chain_RightE:
  assumes "chain m f w = (Right u, w')"
  obtains a w1 where "m w = (Right a, w1)" "f a w1 = (Right u, w')"
  using assms unfolding chain_Right_iff by blast

lemma reaches_chain:
  assumes m: "preserves (\<lambda>ev. \<forall>p. ev \<noteq> UpsertOne p) m" and f: "\<And>a. reaches R (f a)"
  shows "reaches R (chain m f)"
  unfolding reaches_def
proof (intro allI impI)
  fix w u w'
  assume "chain m f w = (Right u, w')"
  then obtain a w1 where mw: "m w = (Right a, w1)" and fw: "f a w1 = (Right u, w')"
    unfolding chain_Right_iff by blast
  from preservesD[OF m mw] obtain es1 where
    1: "events w1 = events w @ es1" "list_all (\<lambda>ev. \<forall>p. ev \<noteq> UpsertOne p) es1"
       "(\<forall>p. UpsertOne p \<notin> set es1) \<longrightarrow> store w1 = store w" by blast
  from 1(2) have n1: "\<forall>p. UpsertOne p \<notin> set es1" by (auto simp: list_all_iff)
  with 1(3) have s1: "store w1 = store w" by simp
  from f[of a] fw obtain es2 w2 where
    2: "events w2 = events w1 @ es2" "\<forall>p. UpsertOne p \<notin> set es2" "store w2 = store w1"
       "R w2 w'"
    unfolding reaches_def by blast
  from 1(1) 2(1) have "events w2 = events w @ (es1 @ es2)" by simp
  moreover from n1 2(2) have "\<forall>p. UpsertOne p \<notin> set (es1 @ es2)" by simp
  moreover from s1 2(3) have "store w2 = store w" by simp
  ultimately show "\<exists>es w1. events w1 = events w @ es \<and> (\<forall>p. UpsertOne p \<notin> set es) \<and>
                 store w1 = store w \<and> R w1 w'"
    using 2(4) by blast
qed

lemma settingRead_Right:
  assumes "chain (perform (SettingRead k) (\<lambda>h. api_settingRead env h k))
             (\<lambda>r. case r of None \<Rightarrow> task_left projectDirMissing | Some dir \<Rightarrow> task_right dir) w
           = (Right rootDir, w1)"
  shows "api_settingRead env (events w) k = Some rootDir \<and>
         events w1 = events w @ [SettingRead k] \<and> store w1 = store w"
  using assms
  by (auto simp: chain_def perform_def task_left_def task_right_def split: option.splits)

lemma getProjectInfoRemote_Right:
  assumes "getProjectInfoRemote env pid w = (Right info, w')"
  shows "http_projectInfo env (events w) pid = Inr info \<and>
         events w' = events w @ [ApiRequest GET (project_info pid) payload_none] \<and>
         store w' = store w"
  using assms
  by (auto simp: getProjectInfoRemote_def chain_Right_iff perform_def task_right_def
      fromHttpError_def task_left_def task_rejected_def split: sum.splits ApiError.splits)

lemma addHash_Right:
  assumes "addHash env projectDir p w = (Right s, w')"
  shows "api_getFileHash env (events w) (path_join env [projectDir, p])
           = Inr (LocalFileState.hash s) \<and>
         events w' = events w @ [GetFileHash (path_join env [projectDir, p])] \<and>
         store w' = store w"
  using assms
  by (auto simp: addHash_def Let_def chain_Right_iff perform_def task_right_def
      task_rejected_def split: sum.splits)

lemma hashed_Right:
  assumes "chain (addHash env projectDir (path x))
             (\<lambda>hashed. task_right (RemoteFileInfo.extend x
                                      (File.fields (LocalFileState.hash hashed)))) w
           = (Right y, w')"
  shows "RemoteFileInfo.truncate y = x \<and> path y = path x \<and>
         api_getFileHash env (events w) (path_join env [projectDir, path x])
           = Inr (File.hash y) \<and>
         events w' = events w @ [GetFileHash (path_join env [projectDir, path x])] \<and>
         store w' = store w"
proof -
  from assms obtain s w2 where a: "addHash env projectDir (path x) w = (Right s, w2)"
    and y: "y = RemoteFileInfo.extend x (File.fields (LocalFileState.hash s))" and w: "w' = w2"
    by (auto simp: chain_Right_iff task_right_def)
  from addHash_Right[OF a] y w show ?thesis
    by (auto simp: RemoteFileInfo.extend_def RemoteFileInfo.truncate_def File.fields_def)
qed

lemma rehash_Right:
  assumes "traverse_seq
             (\<lambda>f. chain (addHash env projectDir (path f))
                     (\<lambda>hashed. task_right (RemoteFileInfo.extend f
                                              (File.fields (LocalFileState.hash hashed)))))
             xs w = (Right fs, w')"
  shows "map RemoteFileInfo.truncate fs = xs \<and>
         events w' = events w @ map (\<lambda>f. GetFileHash (path_join env [projectDir, path f])) fs \<and>
         store w' = store w \<and>
         (\<forall>i<length fs.
            api_getFileHash env
              (events w @ map (\<lambda>f. GetFileHash (path_join env [projectDir, path f])) (take i fs))
              (path_join env [projectDir, path (fs ! i)])
            = Inr (File.hash (fs ! i)))"
  using assms
proof (induction xs arbitrary: w fs w')
  case Nil
  then show ?case by (simp add: task_right_def)
next
  case (Cons x xs)
  let ?ev = "\<lambda>f. GetFileHash (path_join env [projectDir, path f])"
  from Cons.prems obtain y w1 zs w2 where
    1: "chain (addHash env projectDir (path x))
          (\<lambda>hashed. task_right (RemoteFileInfo.extend x
                                   (File.fields (LocalFileState.hash hashed)))) w
        = (Right y, w1)"
    and 2: "traverse_seq
             (\<lambda>f. chain (addHash env projectDir (path f))
                     (\<lambda>hashed. task_right (RemoteFileInfo.extend f
                                              (File.fields (LocalFileState.hash hashed)))))
             xs w1 = (Right zs, w2)"
    and 3: "fs = y # zs" and 4: "w' = w2"
    by (auto simp: chain_Right_iff task_right_def)
  note h = hashed_Right[OF 1]
  note ih = Cons.IH[OF 2]
  from h have e1: "events w1 = events w @ [?ev y]" by simp
  have "api_getFileHash env (events w @ map ?ev (take i (y # zs)))
          (path_join env [projectDir, path ((y # zs) ! i)]) = Inr (File.hash ((y # zs) ! i))"
    if "i < length (y # zs)" for i
  proof (cases i)
    case 0
    with h show ?thesis by simp
  next
    case (Suc j)
    with that have "j < length zs" by simp
    with ih have "api_getFileHash env (events w1 @ map ?ev (take j zs))
          (path_join env [projectDir, path (zs ! j)]) = Inr (File.hash (zs ! j))" by blast
    with Suc e1 show ?thesis by simp
  qed
  with h ih e1 3 4 show ?case by simp
qed

lemma updatedProjectInfo_Right:
  assumes "updatedProjectInfo env pid projectDir w = (Right fs, w')"
  shows "\<exists>info. http_projectInfo env (events w) pid = Inr info \<and>
           map RemoteFileInfo.truncate fs = filter isFile (info_files info) \<and>
           events w' = events w @ ApiRequest GET (project_info pid) payload_none #
                         map (\<lambda>f. GetFileHash (path_join env [projectDir, path f])) fs \<and>
           store w' = store w \<and>
           (\<forall>i<length fs.
              api_getFileHash env
                (events w @ ApiRequest GET (project_info pid) payload_none #
                   map (\<lambda>f. GetFileHash (path_join env [projectDir, path f])) (take i fs))
                (path_join env [projectDir, path (fs ! i)])
              = Inr (File.hash (fs ! i)))"
proof -
  from assms obtain info w1 where i: "getProjectInfoRemote env pid w = (Right info, w1)"
    and t: "traverse_seq
             (\<lambda>f. chain (addHash env projectDir (path f))
                     (\<lambda>hashed. task_right (RemoteFileInfo.extend f
                                              (File.fields (LocalFileState.hash hashed)))))
             (filter isFile (info_files info)) w1 = (Right fs, w')"
    unfolding updatedProjectInfo_def chain_Right_iff by blast
  from getProjectInfoRemote_Right[OF i] rehash_Right[OF t] show ?thesis
    by (intro exI[of _ info]) simp
qed

lemma local_of_Local:
  "\<exists>v. local_of p fs bp t st = Local v \<and> files v = fs \<and> basePath v = bp \<and> syncedAt v = t \<and>
       syncState v = st \<and>
       ProjectMetadata.truncate v = (case p of Remote m \<Rightarrow> m | Local pv \<Rightarrow> ProjectMetadata.truncate pv)"
  by (cases p)
    (auto simp: local_of_def ProjectMetadata.extend_def ProjectMetadata.truncate_def
      LocalProjectValue.fields_def)

lemma project_id_local_of: "project_id (local_of p fs bp t st) = project_id p"
  by (cases p) (auto simp: local_of_def project_id_def ProjectMetadata.extend_def)

lemma storeNewState_Right:
  assumes "chain (storeNewState env project fs rel) (\<lambda>_. task_right ()) w = (Right u, w')"
  shows "\<exists>v. events w' = events w @ [TimeNow, UpsertOne (Local v)] \<and>
           store w' = (store w)(project_id project \<mapsto> Local v) \<and>
           files v = fs \<and> basePath v = rel \<and> syncedAt v = time_now env (events w) \<and>
           syncState v = (case project of
                            Remote m \<Rightarrow> synced unknown
                          | Local pv \<Rightarrow> syncState pv) \<and>
           ProjectMetadata.truncate v = (case project of
                                           Remote m \<Rightarrow> m
                                         | Local pv \<Rightarrow> ProjectMetadata.truncate pv)"
proof -
  let ?st = "case project of Remote m \<Rightarrow> synced unknown | Local pv \<Rightarrow> syncState pv"
  let ?p = "local_of project fs rel (time_now env (events w)) ?st"
  from assms have w': "w' = w\<lparr>events := events w @ [TimeNow] @ [UpsertOne ?p],
                         store := (store w)(project_id ?p \<mapsto> ?p)\<rparr>"
    by (auto simp: storeNewState_def chain_def perform_def upsertOne_def task_right_def)
  from local_of_Local[of project fs rel "time_now env (events w)" ?st] obtain v where
    v: "?p = Local v" "files v = fs" "basePath v = rel" "syncedAt v = time_now env (events w)"
       "syncState v = ?st"
       "ProjectMetadata.truncate v =
          (case project of Remote m \<Rightarrow> m | Local pv \<Rightarrow> ProjectMetadata.truncate pv)"
    by blast
  have "store w' = (store w)(project_id project \<mapsto> Local v)"
    using w' v(1) project_id_local_of[of project fs rel "time_now env (events w)" ?st] by simp
  moreover have "events w' = events w @ [TimeNow, UpsertOne (Local v)]"
    using w' v(1) by simp
  ultimately show ?thesis using v(2-6) by blast
qed

lemma reaches_final:
  "reaches (committed env project rootDir)
     (chain (updatedProjectInfo env (project_id project)
               (path_join env [rootDir, case project of
                                          Remote m \<Rightarrow> getProjectDirRelative env m
                                        | Local pv \<Rightarrow> basePath pv]))
        (\<lambda>updatedFiles.
           chain (storeNewState env project updatedFiles
                    (case project of
                       Remote m \<Rightarrow> getProjectDirRelative env m
                     | Local pv \<Rightarrow> basePath pv))
             (\<lambda>_. task_right ())))"
  unfolding reaches_def
proof (intro allI impI)
  fix w :: World and u :: unit and w' :: World
  let ?rel = "case project of Remote m \<Rightarrow> getProjectDirRelative env m | Local pv \<Rightarrow> basePath pv"
  let ?dir = "path_join env [rootDir, ?rel]"
  assume "chain (updatedProjectInfo env (project_id project) ?dir)
        (\<lambda>updatedFiles. chain (storeNewState env project updatedFiles ?rel)
             (\<lambda>_. task_right ())) w = (Right u, w')"
  then obtain fs w1 where
    a: "updatedProjectInfo env (project_id project) ?dir w = (Right fs, w1)"
    and b: "chain (storeNewState env project fs ?rel) (\<lambda>_. task_right ()) w1 = (Right u, w')"
    unfolding chain_Right_iff by blast
  from updatedProjectInfo_Right[OF a] obtain info where
    i: "http_projectInfo env (events w) (project_id project) = Inr info"
       "map RemoteFileInfo.truncate fs = filter isFile (info_files info)"
       "events w1 = events w @ ApiRequest GET (project_info (project_id project)) payload_none #
                         map (\<lambda>f. GetFileHash (path_join env [?dir, path f])) fs"
       "store w1 = store w"
       "\<forall>i<length fs.
              api_getFileHash env
                (events w @ ApiRequest GET (project_info (project_id project)) payload_none #
                   map (\<lambda>f. GetFileHash (path_join env [?dir, path f])) (take i fs))
                (path_join env [?dir, path (fs ! i)])
              = Inr (File.hash (fs ! i))"
    by blast
  from storeNewState_Right[OF b] obtain v where
    v: "events w' = events w1 @ [TimeNow, UpsertOne (Local v)]"
       "store w' = (store w1)(project_id project \<mapsto> Local v)"
       "files v = fs" "basePath v = ?rel" "syncedAt v = time_now env (events w1)"
       "syncState v = (case project of Remote m \<Rightarrow> synced unknown | Local pv \<Rightarrow> syncState pv)"
       "ProjectMetadata.truncate v =
          (case project of Remote m \<Rightarrow> m | Local pv \<Rightarrow> ProjectMetadata.truncate pv)"
    by blast
  have "committed env project rootDir w w'"
    unfolding committed_def Let_def
    apply (rule exI[of _ v], rule exI[of _ info])
    using i v by simp
  then show "\<exists>es w1. events w1 = events w @ es \<and> (\<forall>p. UpsertOne p \<notin> set es) \<and>
                 store w1 = store w \<and> committed env project rootDir w1 w'"
    by (intro exI[of _ "[]"] exI[of _ w]) simp
qed

lemma reaches_chainD:
  assumes "chain m f w = (Right u, w')" "reaches R (chain m f)"
  shows "\<exists>es w1. events w1 = events w @ es \<and> (\<forall>p. UpsertOne p \<notin> set es) \<and>
                 store w1 = store w \<and> R w1 w'"
  using assms unfolding reaches_def by blast

lemma run_reaches_commit:
  assumes "useProjectSync env project force w = (Right u, w')"
  shows "\<exists>rootDir pre w1.
           api_settingRead env (events w) ''projectDir'' = Some rootDir \<and>
           events w1 = events w @ SettingRead ''projectDir'' #
                         ApiRequest GET (project_info (project_id project)) payload_none # pre \<and>
           (\<forall>p. UpsertOne p \<notin> set pre) \<and>
           store w1 = store w \<and>
           committed env project rootDir w1 w'"
  using assms unfolding useProjectSync_def Let_def
  apply (erule_tac chain_RightE)
  apply (drule settingRead_Right)
  apply (erule_tac chain_RightE)
  apply (drule getProjectInfoRemote_Right)
  apply (drule reaches_chainD)
   apply ((rule reaches_final
          | (rule reaches_chain, (intro preserves_intros preserves_steps; simp)[1]))+)[1]
  apply (elim exE conjE)
  apply (rule_tac x = a in exI)
  apply (rule_tac x = es in exI)
  apply (rule_tac x = w1b in exI)
  apply simp
  done

lemma run_result: "useProjectSync env project force w =
    (fst (useProjectSync env project force w), snd (useProjectSync env project force w))"
  by simp

text \<open>
  Claim C1. A run that does not come to its right value (it fails with a
  \<^verbatim>\<open>SyncException\<close>, it rejects, or it does not resolve) leaves the project store as it
  was and has issued no upsert: the upsert is the last step and runs only when every step
  before it has succeeded.
\<close>

theorem store_unchanged_before_commit:
  assumes "useProjectSync env project force w = (r, w')" and "\<forall>u. r \<noteq> Right u"
  shows "store w' = store w \<and>
         (\<exists>es. events w' = events w @ es \<and> (\<forall>p. UpsertOne p \<notin> set es))"
  using uncommitted_useProjectSync[of env project force, unfolded uncommitted_def,
      rule_format, of w] assms
  by simp

theorem store_unchanged_before_commit_witness:
  "fst (useProjectSync example_env (example_local ''H1'' 1 syncing) None example_world)
     = Left conflictingChanges \<and>
   store (snd (useProjectSync example_env (example_local ''H1'' 1 syncing) None example_world))
     = store example_world"
proof -
  let ?run = "useProjectSync example_env (example_local ''H1'' 1 syncing) None example_world"
  have e: "fst ?run = Left conflictingChanges" by code_simp
  then have n: "\<forall>u. fst ?run \<noteq> Right u" by simp
  from store_unchanged_before_commit[OF run_result n] e show ?thesis by simp
qed

text \<open>
  Claim C4. A run with \<^verbatim>\<open>force = 'push'\<close> issues no \<^verbatim>\<open>GET project/{id}/file\<close>, writes no
  project file and removes no local file: its remote change set is none, and so are the
  files to download and the files to delete.
\<close>

theorem force_push_never_pulls:
  assumes "useProjectSync env project (Some push) w = (r, w')"
  shows "(\<exists>es. events w' = events w @ es \<and>
            (\<forall>ev\<in>set es. (\<forall>i j. ev \<noteq> ApiRequest GET (project_file i) j) \<and>
                          (\<forall>p c b. ev \<noteq> WriteProjectFile p c b) \<and>
                          (\<forall>p. ev \<noteq> RemoveFile p))) \<and>
         sync_remoteChanges (Some push) projectInfoPrevious remoteFiles = None \<and>
         map_option (getFilesToDownload remoteFiles)
           (sync_remoteChanges (Some push) projectInfoPrevious remoteFiles) = None \<and>
         map_option getFilesToDelete
           (sync_remoteChanges (Some push) projectInfoPrevious remoteFiles) = None"
proof -
  from preservesD[OF preserves_push assms] obtain es where
    "events w' = events w @ es"
    "list_all (\<lambda>ev. (\<forall>i j. ev \<noteq> ApiRequest GET (project_file i) j) \<and>
                     (\<forall>p c b. ev \<noteq> WriteProjectFile p c b) \<and>
                     (\<forall>p. ev \<noteq> RemoveFile p)) es"
    by blast
  then have "\<exists>es. events w' = events w @ es \<and>
            (\<forall>ev\<in>set es. (\<forall>i j. ev \<noteq> ApiRequest GET (project_file i) j) \<and>
                          (\<forall>p c b. ev \<noteq> WriteProjectFile p c b) \<and>
                          (\<forall>p. ev \<noteq> RemoveFile p))"
    unfolding list_all_iff by blast
  then show ?thesis by (simp add: sync_remoteChanges_push)
qed

theorem force_push_never_pulls_witness:
  "fst (useProjectSync example_env (example_local ''H2'' 1 syncing) (Some push) example_world)
     = Right () \<and>
   (\<exists>es. events (snd (useProjectSync example_env (example_local ''H2'' 1 syncing) (Some push)
                        example_world)) = events example_world @ es \<and>
      (\<forall>ev\<in>set es. (\<forall>i j. ev \<noteq> ApiRequest GET (project_file i) j) \<and>
                    (\<forall>p c b. ev \<noteq> WriteProjectFile p c b) \<and>
                    (\<forall>p. ev \<noteq> RemoveFile p)))"
proof -
  let ?run = "useProjectSync example_env (example_local ''H2'' 1 syncing) (Some push)
                example_world"
  have e: "fst ?run = Right ()" by code_simp
  from force_push_never_pulls[OF run_result, THEN conjunct1] e show ?thesis by simp
qed

text \<open>
  Claim C9. The run of a project that was never synced (\<^verbatim>\<open>Remote\<close>) issues no POST
  request and builds and reads no archive; its local change set is none, so there are no
  files to upload; and it does not depend on the functions the upload-eligibility checks
  consult (\<^verbatim>\<open>dirname\<close>, \<^verbatim>\<open>basename\<close>, the two name predicates): the checks are not run.
\<close>

theorem remote_project_never_uploads:
  assumes "useProjectSync env (Remote m) force w = (r, w')"
  shows "(\<exists>es. events w' = events w @ es \<and>
            (\<forall>ev\<in>set es. (\<forall>e j. ev \<noteq> ApiRequest POST e j) \<and>
                          (\<forall>a b c. ev \<noteq> BuildTar a b c) \<and>
                          (\<forall>p. ev \<noteq> ReadBinaryFile p) \<and> ev \<noteq> TempDir)) \<and>
         sync_localChanges force projectInfoLocal None = None \<and>
         useProjectSync (env\<lparr>path_dirname := dn, path_basename := bn,
                              file_isValidFileName := vf, file_isValidDirName := vd\<rparr>)
             (Remote m) force
           = useProjectSync env (Remote m) force"
proof -
  from preservesD[OF preserves_remote assms] obtain es where
    "events w' = events w @ es"
    "list_all (\<lambda>ev. (\<forall>e j. ev \<noteq> ApiRequest POST e j) \<and>
                     (\<forall>a b c. ev \<noteq> BuildTar a b c) \<and>
                     (\<forall>p. ev \<noteq> ReadBinaryFile p) \<and> ev \<noteq> TempDir) es"
    by blast
  then have "\<exists>es. events w' = events w @ es \<and>
            (\<forall>ev\<in>set es. (\<forall>e j. ev \<noteq> ApiRequest POST e j) \<and>
                          (\<forall>a b c. ev \<noteq> BuildTar a b c) \<and>
                          (\<forall>p. ev \<noteq> ReadBinaryFile p) \<and> ev \<noteq> TempDir)"
    unfolding list_all_iff by blast
  then show ?thesis
    using sync_localChanges_no_baseline[of force projectInfoLocal]
      remote_independent_of_checks[where env = env and dn = dn and bn = bn and vf = vf
        and vd = vd and m = m and force = force]
    by simp
qed

theorem remote_project_never_uploads_witness:
  "fst (useProjectSync example_env (Remote example_metadata) None example_world) = Right () \<and>
   (\<exists>es. events (snd (useProjectSync example_env (Remote example_metadata) None example_world))
            = events example_world @ es \<and>
      (\<forall>ev\<in>set es. (\<forall>e j. ev \<noteq> ApiRequest POST e j) \<and>
                    (\<forall>a b c. ev \<noteq> BuildTar a b c) \<and>
                    (\<forall>p. ev \<noteq> ReadBinaryFile p) \<and> ev \<noteq> TempDir))"
proof -
  let ?run = "useProjectSync example_env (Remote example_metadata) None example_world"
  have e: "fst ?run = Right ()" by code_simp
  from remote_project_never_uploads[OF run_result, THEN conjunct1] e show ?thesis by simp
qed

text \<open>
  Claim C5, as amended. A successful run ends with the upsert of a \<^verbatim>\<open>Local\<close> project under
  the id of the input project, and the events of the run are, in this order: the read of
  the \<^verbatim>\<open>projectDir\<close> setting, the first request for the inventory, the events \<open>pre\<close> of
  the transfer (no upsert among them), the second request for the inventory, one hash read
  for each committed file, the read of the clock, and the upsert. The committed \<^verbatim>\<open>files\<close>
  are the entries of type \<^verbatim>\<open>file\<close> of the inventory the server answers the second request
  with, in its order, each with the hash the file system answers at that moment for the
  file below the project directory; the project directory is the \<^verbatim>\<open>projectDir\<close> setting
  joined with the relative project directory. The \<^verbatim>\<open>basePath\<close> is the relative project
  directory, \<^verbatim>\<open>syncedAt\<close> is the clock read just before the upsert, the metadata are the
  input's. The \<^verbatim>\<open>syncState\<close> is \<^verbatim>\<open>synced(unknown)\<close> when the input was \<^verbatim>\<open>Remote\<close>, and the
  \<^verbatim>\<open>syncState\<close> of the input when the input was \<^verbatim>\<open>Local\<close>.
\<close>

theorem successful_run_commits:
  assumes "useProjectSync env project force w = (Right u, w')"
  shows "\<exists>v rootDir pre info.
           let pid = project_id project;
               projectDir = path_join env [rootDir, basePath v];
               fetch = ApiRequest GET (project_info pid) payload_none;
               before = events w @ SettingRead ''projectDir'' # fetch # pre;
               reads = map (\<lambda>f. GetFileHash (path_join env [projectDir, path f]))
           in api_settingRead env (events w) ''projectDir'' = Some rootDir \<and>
              (\<forall>p. UpsertOne p \<notin> set pre) \<and>
              http_projectInfo env before pid = Inr info \<and>
              map RemoteFileInfo.truncate (files v) = filter isFile (info_files info) \<and>
              (\<forall>i<length (files v).
                 api_getFileHash env (before @ fetch # reads (take i (files v)))
                   (path_join env [projectDir, path (files v ! i)])
                 = Inr (File.hash (files v ! i))) \<and>
              events w' = before @ fetch # reads (files v) @ [TimeNow, UpsertOne (Local v)] \<and>
              syncedAt v = time_now env (before @ fetch # reads (files v)) \<and>
              store w' = (store w)(pid \<mapsto> Local v) \<and>
              basePath v = (case project of
                              Remote m \<Rightarrow> getProjectDirRelative env m
                            | Local pv \<Rightarrow> basePath pv) \<and>
              syncState v = (case project of
                               Remote m \<Rightarrow> synced unknown
                             | Local pv \<Rightarrow> syncState pv) \<and>
              ProjectMetadata.truncate v = (case project of
                                              Remote m \<Rightarrow> m
                                            | Local pv \<Rightarrow> ProjectMetadata.truncate pv)"
proof -
  from run_reaches_commit[OF assms] obtain rootDir pre w1 where
    r: "api_settingRead env (events w) ''projectDir'' = Some rootDir"
       "events w1 = events w @ SettingRead ''projectDir'' #
                      ApiRequest GET (project_info (project_id project)) payload_none # pre"
       "\<forall>p. UpsertOne p \<notin> set pre"
       "store w1 = store w"
    and c: "committed env project rootDir w1 w'"
    by blast
  let ?pid = "project_id project"
  let ?fetch = "ApiRequest GET (project_info ?pid) payload_none"
  let ?before = "events w @ SettingRead ''projectDir'' # ?fetch # pre"
  from c[unfolded committed_def Let_def r(2) r(4)] obtain v info where
    v: "http_projectInfo env ?before ?pid = Inr info"
       "map RemoteFileInfo.truncate (files v) = filter isFile (info_files info)"
       "\<forall>i<length (files v).
          api_getFileHash env
            (?before @ ?fetch #
               map (\<lambda>f. GetFileHash (path_join env [path_join env [rootDir, basePath v], path f]))
                 (take i (files v)))
            (path_join env [path_join env [rootDir, basePath v], path (files v ! i)])
          = Inr (File.hash (files v ! i))"
       "events w' = ?before @ ?fetch #
          map (\<lambda>f. GetFileHash (path_join env [path_join env [rootDir, basePath v], path f]))
            (files v) @ [TimeNow, UpsertOne (Local v)]"
       "syncedAt v = time_now env
         (?before @ ?fetch #
            map (\<lambda>f. GetFileHash (path_join env [path_join env [rootDir, basePath v], path f]))
              (files v))"
       "store w' = (store w)(?pid \<mapsto> Local v)"
       "basePath v = (case project of
                       Remote m \<Rightarrow> getProjectDirRelative env m
                     | Local pv \<Rightarrow> basePath pv)"
       "syncState v = (case project of
                        Remote m \<Rightarrow> synced unknown
                      | Local pv \<Rightarrow> syncState pv)"
       "ProjectMetadata.truncate v = (case project of
                                       Remote m \<Rightarrow> m
                                     | Local pv \<Rightarrow> ProjectMetadata.truncate pv)"
    by blast
  show ?thesis
    unfolding Let_def
    apply (rule exI[of _ v], rule exI[of _ rootDir], rule exI[of _ pre], rule exI[of _ info])
    apply (intro conjI)
              apply (rule r(1))
             apply (rule r(3))
            apply (rule v(1))
           apply (rule v(2))
          apply (rule v(3))
         apply (rule v(4))
        apply (rule v(5))
       apply (rule v(6))
      apply (rule v(7))
     apply (rule v(8))
    apply (rule v(9))
    done
qed

theorem successful_run_commits_witness:
  "fst (useProjectSync example_env (Remote example_metadata) None example_world) = Right () \<and>
   (\<exists>v pre.
      events (snd (useProjectSync example_env (Remote example_metadata) None example_world))
        = events example_world @ SettingRead ''projectDir'' #
          ApiRequest GET (project_info (project_id (Remote example_metadata))) payload_none #
          pre @
          ApiRequest GET (project_info (project_id (Remote example_metadata))) payload_none #
          map (\<lambda>f. GetFileHash (path_join example_env
                                  [path_join example_env [''/w'', basePath v], path f]))
            (files v) @
          [TimeNow, UpsertOne (Local v)] \<and>
      map RemoteFileInfo.truncate (files v)
        = [\<lparr>path = ''a.txt'', type = type_file, version = 2, permissions = perm_rw\<rparr>] \<and>
      store (snd (useProjectSync example_env (Remote example_metadata) None example_world))
        = (store example_world)(project_id (Remote example_metadata) \<mapsto> Local v) \<and>
      syncState v = synced unknown)"
proof -
  let ?run = "useProjectSync example_env (Remote example_metadata) None example_world"
  let ?pid = "project_id (Remote example_metadata)"
  let ?fetch = "ApiRequest GET (project_info ?pid) payload_none"
  have e: "fst ?run = Right ()" by code_simp
  have "?run = (fst ?run, snd ?run)" by simp
  then have r: "?run = (Right (), snd ?run)" unfolding e .
  from successful_run_commits[OF r, unfolded Let_def] obtain v rootDir pre info where
    1: "api_settingRead example_env (events example_world) ''projectDir'' = Some rootDir"
    and 2: "http_projectInfo example_env
              (events example_world @ SettingRead ''projectDir'' # ?fetch # pre) ?pid = Inr info"
    and 3: "map RemoteFileInfo.truncate (files v) = filter isFile (info_files info)"
    and 4: "events (snd ?run)
        = (events example_world @ SettingRead ''projectDir'' # ?fetch # pre) @ ?fetch #
          map (\<lambda>f. GetFileHash (path_join example_env
                                  [path_join example_env [rootDir, basePath v], path f]))
            (files v) @
          [TimeNow, UpsertOne (Local v)]"
    and 5: "store (snd ?run) = (store example_world)(?pid \<mapsto> Local v)"
    and 6: "syncState v = (case Remote example_metadata of
                             Remote m \<Rightarrow> synced unknown
                           | Local pv \<Rightarrow> syncState pv)"
    by blast
  from 1 have rd: "rootDir = ''/w''" by (simp add: example_env_def)
  from 2 have "info_files info
      = [\<lparr>path = ''a.txt'', type = type_file, version = 2, permissions = perm_rw\<rparr>]"
    by (auto simp: example_env_def)
  with 3 have 7: "map RemoteFileInfo.truncate (files v)
      = [\<lparr>path = ''a.txt'', type = type_file, version = 2, permissions = perm_rw\<rparr>]"
    by (simp add: isFile_def)
  from 6 have 8: "syncState v = synced unknown" by simp
  from 4 rd have 9: "events (snd ?run)
        = events example_world @ SettingRead ''projectDir'' # ?fetch # pre @ ?fetch #
          map (\<lambda>f. GetFileHash (path_join example_env
                                  [path_join example_env [''/w'', basePath v], path f]))
            (files v) @
          [TimeNow, UpsertOne (Local v)]"
    by simp
  have "\<exists>v pre.
      events (snd ?run)
        = events example_world @ SettingRead ''projectDir'' # ?fetch # pre @ ?fetch #
          map (\<lambda>f. GetFileHash (path_join example_env
                                  [path_join example_env [''/w'', basePath v], path f]))
            (files v) @
          [TimeNow, UpsertOne (Local v)] \<and>
      map RemoteFileInfo.truncate (files v)
        = [\<lparr>path = ''a.txt'', type = type_file, version = 2, permissions = perm_rw\<rparr>] \<and>
      store (snd ?run) = (store example_world)(?pid \<mapsto> Local v) \<and>
      syncState v = synced unknown"
    using 9 7 5 8 by (intro exI[of _ v] exI[of _ pre] conjI)
  with e show ?thesis by (rule conjI)
qed

text \<open>
  Claim C5 as stated fails in two ways. For a \<^verbatim>\<open>Local\<close> input, a project whose
  \<^verbatim>\<open>syncState\<close> is \<^verbatim>\<open>syncing\<close> and that is in sync on both sides is committed with
  \<^verbatim>\<open>syncState = syncing\<close>, not \<^verbatim>\<open>synced(unknown)\<close>. And when the server lists a directory
  \<^verbatim>\<open>src\<close> beside the file \<^verbatim>\<open>a.txt\<close>, the inventory fetched again has two entries and the
  committed \<^verbatim>\<open>files\<close> have one: the directory is not part of the committed baseline.
\<close>

theorem commit_counterexample:
  "fst (useProjectSync example_env (example_local ''H2'' 2 syncing) None example_world)
     = Right () \<and>
   store (snd (useProjectSync example_env (example_local ''H2'' 2 syncing) None example_world))
      ''p1''
     = Some (Local \<lparr>projectId = ''p1'', semester = ''2024S'', courseName = ''c'',
               exerciseName = ''e'', taskName = ''t'', taskOrder = 0, exerciseOrder = 0,
               files = [\<lparr>path = ''a.txt'', type = type_file, version = 2,
                         permissions = perm_rw, File.hash = ''H2''\<rparr>],
               basePath = ''2024S/c/e/t'', syncedAt = 1006, syncState = syncing\<rparr>) \<and>
   syncing \<noteq> synced unknown \<and>
   fst (useProjectSync
          (example_env\<lparr>http_projectInfo :=
             (\<lambda>h i. Inr \<lparr>info_id = i,
                           info_files = [\<lparr>path = ''src'', type = type_dir, version = 1,
                                          permissions = perm_rw\<rparr>,
                                         \<lparr>path = ''a.txt'', type = type_file, version = 2,
                                          permissions = perm_rw\<rparr>]\<rparr>)\<rparr>)
          (example_local ''H2'' 2 syncing) None example_world)
     = Right () \<and>
   events (snd (useProjectSync
          (example_env\<lparr>http_projectInfo :=
             (\<lambda>h i. Inr \<lparr>info_id = i,
                           info_files = [\<lparr>path = ''src'', type = type_dir, version = 1,
                                          permissions = perm_rw\<rparr>,
                                         \<lparr>path = ''a.txt'', type = type_file, version = 2,
                                          permissions = perm_rw\<rparr>]\<rparr>)\<rparr>)
          (example_local ''H2'' 2 syncing) None example_world))
     = [SettingRead ''projectDir'',
        ApiRequest GET (project_info ''p1'') payload_none,
        ReadDirTree ''/w/2024S/c/e/t'', GetFileHash ''/w/2024S/c/e/t/a.txt'',
        CreateProjectDir ''/w/2024S/c/e/t/src'' False,
        ApiRequest GET (project_info ''p1'') payload_none,
        GetFileHash ''/w/2024S/c/e/t/a.txt'', TimeNow,
        UpsertOne
          (Local \<lparr>projectId = ''p1'', semester = ''2024S'', courseName = ''c'',
             exerciseName = ''e'', taskName = ''t'', taskOrder = 0, exerciseOrder = 0,
             files = [\<lparr>path = ''a.txt'', type = type_file, version = 2,
                       permissions = perm_rw, File.hash = ''H2''\<rparr>],
             basePath = ''2024S/c/e/t'', syncedAt = 1007, syncState = syncing\<rparr>)] \<and>
   http_projectInfo
     (example_env\<lparr>http_projectInfo :=
        (\<lambda>h i. Inr \<lparr>info_id = i,
                      info_files = [\<lparr>path = ''src'', type = type_dir, version = 1,
                                     permissions = perm_rw\<rparr>,
                                    \<lparr>path = ''a.txt'', type = type_file, version = 2,
                                     permissions = perm_rw\<rparr>]\<rparr>)\<rparr>)
     [SettingRead ''projectDir'',
      ApiRequest GET (project_info ''p1'') payload_none,
      ReadDirTree ''/w/2024S/c/e/t'', GetFileHash ''/w/2024S/c/e/t/a.txt'',
      CreateProjectDir ''/w/2024S/c/e/t/src'' False] ''p1''
     = Inr \<lparr>info_id = ''p1'',
             info_files = [\<lparr>path = ''src'', type = type_dir, version = 1,
                            permissions = perm_rw\<rparr>,
                           \<lparr>path = ''a.txt'', type = type_file, version = 2,
                            permissions = perm_rw\<rparr>]\<rparr>"
proof -
  let ?env = "example_env\<lparr>http_projectInfo :=
             (\<lambda>h i. Inr \<lparr>info_id = i,
                           info_files = [\<lparr>path = ''src'', type = type_dir, version = 1,
                                          permissions = perm_rw\<rparr>,
                                         \<lparr>path = ''a.txt'', type = type_file, version = 2,
                                          permissions = perm_rw\<rparr>]\<rparr>)\<rparr>"
  have 1: "fst (useProjectSync example_env (example_local ''H2'' 2 syncing) None example_world)
     = Right ()" by code_simp
  have 2: "store (snd (useProjectSync example_env (example_local ''H2'' 2 syncing) None
                         example_world)) ''p1''
     = Some (Local \<lparr>projectId = ''p1'', semester = ''2024S'', courseName = ''c'',
               exerciseName = ''e'', taskName = ''t'', taskOrder = 0, exerciseOrder = 0,
               files = [\<lparr>path = ''a.txt'', type = type_file, version = 2,
                         permissions = perm_rw, File.hash = ''H2''\<rparr>],
               basePath = ''2024S/c/e/t'', syncedAt = 1006, syncState = syncing\<rparr>)"
    by code_simp
  have 3: "fst (useProjectSync ?env (example_local ''H2'' 2 syncing) None example_world)
     = Right ()" by code_simp
  have 4: "events (snd (useProjectSync ?env (example_local ''H2'' 2 syncing) None
                          example_world))
     = [SettingRead ''projectDir'',
        ApiRequest GET (project_info ''p1'') payload_none,
        ReadDirTree ''/w/2024S/c/e/t'', GetFileHash ''/w/2024S/c/e/t/a.txt'',
        CreateProjectDir ''/w/2024S/c/e/t/src'' False,
        ApiRequest GET (project_info ''p1'') payload_none,
        GetFileHash ''/w/2024S/c/e/t/a.txt'', TimeNow,
        UpsertOne
          (Local \<lparr>projectId = ''p1'', semester = ''2024S'', courseName = ''c'',
             exerciseName = ''e'', taskName = ''t'', taskOrder = 0, exerciseOrder = 0,
             files = [\<lparr>path = ''a.txt'', type = type_file, version = 2,
                       permissions = perm_rw, File.hash = ''H2''\<rparr>],
             basePath = ''2024S/c/e/t'', syncedAt = 1007, syncState = syncing\<rparr>)]"
    by code_simp
  have 5: "http_projectInfo ?env
     [SettingRead ''projectDir'',
      ApiRequest GET (project_info ''p1'') payload_none,
      ReadDirTree ''/w/2024S/c/e/t'', GetFileHash ''/w/2024S/c/e/t/a.txt'',
      CreateProjectDir ''/w/2024S/c/e/t/src'' False] ''p1''
     = Inr \<lparr>info_id = ''p1'',
             info_files = [\<lparr>path = ''src'', type = type_dir, version = 1,
                            permissions = perm_rw\<rparr>,
                           \<lparr>path = ''a.txt'', type = type_file, version = 2,
                            permissions = perm_rw\<rparr>]\<rparr>"
    by simp
  have 6: "syncing \<noteq> synced unknown" by simp
  from 1 2 6 3 4 5 show ?thesis by (intro conjI)
qed

subsection \<open>The sync run: where a conflict is reported\<close>

named_theorems conflict_free_intros

lemma cf_task_right [conflict_free_intros]: "conflict_free (task_right a)"
  by (simp add: conflict_free_def task_right_def)

lemma cf_task_left [conflict_free_intros]:
  "e \<noteq> conflictingChanges \<Longrightarrow> conflict_free (task_left e)"
  by (simp add: conflict_free_def task_left_def)

lemma cf_task_rejected [conflict_free_intros]: "conflict_free (task_rejected x)"
  by (simp add: conflict_free_def task_rejected_def)

lemma cf_task_outcome [conflict_free_intros]:
  "r \<noteq> Left conflictingChanges \<Longrightarrow> conflict_free (task_outcome r)"
  by (simp add: conflict_free_def task_outcome_def)

lemma cf_perform [conflict_free_intros]: "conflict_free (perform ev answer)"
  by (simp add: conflict_free_def perform_def)

lemma cf_upsertOne [conflict_free_intros]: "conflict_free (upsertOne p)"
  by (simp add: conflict_free_def upsertOne_def)

lemma cf_chain [conflict_free_intros]:
  assumes "conflict_free m" "\<And>a. conflict_free (f a)"
  shows "conflict_free (chain m f)"
  unfolding conflict_free_def
proof (intro allI)
  fix w
  show "fst (chain m f w) \<noteq> Left conflictingChanges"
  proof (cases rule: chain_cases[of m w f])
    case (Right a w1)
    with assms(2)[of a] show ?thesis by (simp add: conflict_free_def)
  next
    case (Stop r w1)
    from assms(1) Stop(1) have "r \<noteq> Left conflictingChanges"
      unfolding conflict_free_def by (metis fst_conv)
    with Stop show ?thesis by (cases r) auto
  qed
qed

lemma cf_traverse_seq [conflict_free_intros]:
  assumes "\<And>x. conflict_free (f x)"
  shows "conflict_free (traverse_seq f xs)"
  by (induction xs) (auto intro!: conflict_free_intros assms)

lemma traverseArray_par_Left: "traverseArray_par rs = Left e \<Longrightarrow> Left e \<in> set rs"
  by (auto simp: traverseArray_par_def find_Some_iff split: option.splits Outcome.splits if_splits)
    (metis nth_mem)+

lemma run_all_outcomes:
  assumes "\<And>x. conflict_free (f x)"
  shows "Left conflictingChanges \<notin> set (fst (run_all f xs w))"
proof (induction xs arbitrary: w)
  case Nil
  show ?case by simp
next
  case (Cons x xs)
  obtain r w1 where fw: "f x w = (r, w1)" by (cases "f x w")
  obtain rs w2 where rw: "run_all f xs w1 = (rs, w2)" by (cases "run_all f xs w1")
  from assms[of x] fw have "r \<noteq> Left conflictingChanges"
    unfolding conflict_free_def by (metis fst_conv)
  moreover from Cons.IH[of w1] rw have "Left conflictingChanges \<notin> set rs" by simp
  ultimately show ?case using fw rw by simp
qed

lemma cf_traverse_par [conflict_free_intros]:
  assumes "\<And>x. conflict_free (f x)"
  shows "conflict_free (traverse_par f xs)"
  unfolding conflict_free_def
proof (intro allI notI)
  fix w
  assume a: "fst (traverse_par f xs w) = Left conflictingChanges"
  obtain rs w1 where rw: "run_all f xs w = (rs, w1)" by (cases "run_all f xs w")
  with a have "traverseArray_par rs = Left conflictingChanges" by (simp add: traverse_par_def)
  from traverseArray_par_Left[OF this] have "Left conflictingChanges \<in> set rs" .
  moreover have "Left conflictingChanges \<notin> set (fst (run_all f xs w))"
    by (rule run_all_outcomes) (rule assms)
  ultimately show False using rw by simp
qed

lemma cf_case_option [conflict_free_intros]:
  "conflict_free a \<Longrightarrow> (\<And>y. conflict_free (b y)) \<Longrightarrow>
   conflict_free (case x of None \<Rightarrow> a | Some y \<Rightarrow> b y)"
  by (cases x) auto

lemma cf_case_sum [conflict_free_intros]:
  "(\<And>y. conflict_free (a y)) \<Longrightarrow> (\<And>y. conflict_free (b y)) \<Longrightarrow>
   conflict_free (case x of Inl y \<Rightarrow> a y | Inr y \<Rightarrow> b y)"
  by (cases x) auto

lemma cf_case_Project [conflict_free_intros]:
  "(\<And>y. conflict_free (a y)) \<Longrightarrow> (\<And>y. conflict_free (b y)) \<Longrightarrow>
   conflict_free (case x of Remote y \<Rightarrow> a y | Local y \<Rightarrow> b y)"
  by (cases x) auto

lemma cf_if [conflict_free_intros]:
  "conflict_free a \<Longrightarrow> conflict_free b \<Longrightarrow> conflict_free (if c then a else b)"
  by simp

lemma cf_fromHttpError [conflict_free_intros]: "conflict_free (fromHttpError err)"
  unfolding fromHttpError_def by (cases err) (auto intro!: conflict_free_intros)

text \<open>The upload checks fail with other exceptions.\<close>

lemma findClosest_Inl_aux:
  assumes "findClosest dn m p = Some y"
  shows "\<forall>e. y = Inl e \<longrightarrow> (\<exists>a b. e = fileSystemCorrupted a b)"
proof (rule findClosest.raw_induct[where P = "\<lambda>dn m p y. \<forall>e. y = Inl e \<longrightarrow>
        (\<exists>a b. e = fileSystemCorrupted a b)", OF _ assms])
  fix fc :: "(string \<Rightarrow> string + string) \<Rightarrow> (string \<Rightarrow> 'a option) \<Rightarrow> string
     \<Rightarrow> (SyncException + 'a) option"
  fix dn m p y
  assume IH: "\<And>dn m p y. fc dn m p = Some y \<Longrightarrow>
      \<forall>e. y = Inl e \<longrightarrow> (\<exists>a b. e = fileSystemCorrupted a b)"
    and eq: "(case m p of
        None \<Rightarrow>
          if p = ''.''
          then Some (Inl (fileSystemCorrupted p ''Root directory must exist''))
          else (case dn p of
                  Inl reason \<Rightarrow> Some (Inl (fileSystemCorrupted p reason))
                | Inr parent \<Rightarrow> fc dn m parent)
      | Some a \<Rightarrow> Some (Inr a)) = Some y"
  show "\<forall>e. y = Inl e \<longrightarrow> (\<exists>a b. e = fileSystemCorrupted a b)"
    using eq IH by (auto split: option.splits if_splits sum.splits)
qed

lemma checkClosest_no_conflict:
  "checkClosestExistingAncestorIsWritable dn remote c \<noteq> Left conflictingChanges"
proof
  assume a: "checkClosestExistingAncestorIsWritable dn remote c = Left conflictingChanges"
  let ?m = "\<lambda>closestPath. map_option (\<lambda>i. permissions i = perm_rw)
                     (find (\<lambda>i. path i = closestPath) remote)"
  from a have "findClosest dn ?m (path c) = Some (Inl conflictingChanges)"
    by (auto simp: checkClosestExistingAncestorIsWritable_def outcome_of_def
        split: option.splits sum.splits if_splits)
  from findClosest_Inl_aux[OF this] show False by simp
qed

lemma ancestors_Inl_aux:
  assumes "ancestors dn b = Some xs"
  shows "\<forall>e. Inl e \<in> set xs \<longrightarrow> (\<exists>a b. e = fileSystemCorrupted a b)"
proof (rule ancestors.raw_induct[where P = "\<lambda>dn b xs. \<forall>e. Inl e \<in> set xs \<longrightarrow>
        (\<exists>a b. e = fileSystemCorrupted a b)", OF _ assms])
  fix an :: "(string \<Rightarrow> string + string) \<Rightarrow> SyncException + string
     \<Rightarrow> (SyncException + string) list option"
  fix dn b xs
  assume IH: "\<And>dn b xs. an dn b = Some xs \<Longrightarrow>
      \<forall>e. Inl e \<in> set xs \<longrightarrow> (\<exists>a b. e = fileSystemCorrupted a b)"
    and eq: "(case b of
        Inl e \<Rightarrow> Some []
      | Inr p \<Rightarrow>
          if p = ''.'' then Some []
          else (let x = (case dn p of
                           Inl reason \<Rightarrow> Inl (fileSystemCorrupted p reason)
                         | Inr parent \<Rightarrow> Inr parent)
                in Option.bind (an dn x) (\<lambda>xs. Some (x # xs)))) = Some xs"
  show "\<forall>e. Inl e \<in> set xs \<longrightarrow> (\<exists>a b. e = fileSystemCorrupted a b)"
    using eq IH
    by (auto simp: Let_def bind_eq_Some_conv split: sum.splits if_splits)
qed

lemma sequenceArray_Inl: "sequenceArray xs = Inl e \<Longrightarrow> Inl e \<in> set xs"
  by (induction xs rule: sequenceArray.induct) (auto split: sum.splits)

lemma checkEvery_no_conflict:
  "checkEveryNewAncestorIsValidDirName dn bn vd remote c \<noteq> Left conflictingChanges"
proof
  assume a: "checkEveryNewAncestorIsValidDirName dn bn vd remote c = Left conflictingChanges"
  then obtain es where es: "ancestors dn (Inr (path c)) = Some es"
    and s: "sequenceArray es = Inl conflictingChanges"
    by (auto simp: checkEveryNewAncestorIsValidDirName_def Let_def
        split: option.splits sum.splits)
  from sequenceArray_Inl[OF s] ancestors_Inl_aux[OF es] show False by auto
qed

lemma checkValidFileName_no_conflict:
  "checkValidFileName bn vf c \<noteq> Left conflictingChanges"
  by (auto simp: checkValidFileName_def split: option.splits)

lemma chain_outcome_no_conflict:
  "r \<noteq> Left conflictingChanges \<Longrightarrow> (\<And>a. f a \<noteq> Left conflictingChanges) \<Longrightarrow>
   chain_outcome r f \<noteq> Left conflictingChanges"
  by (cases r) (auto simp: chain_outcome_def)

lemma uploadCheck_no_conflict:
  "uploadCheck dn bn vf vd remote x \<noteq> Left conflictingChanges"
proof (cases "LocalFileChange.change x")
  case L_noChange
  then show ?thesis by (simp add: uploadCheck_def)
next
  case L_updated
  then show ?thesis by (simp add: uploadCheck_def)
next
  case L_removed
  have "chain_outcome
          (if isFileWritable remote x then Right x
           else Left (readOnlyFilesChanged [] ''File is read-only''))
          (checkClosestExistingAncestorIsWritable dn remote) \<noteq> Left conflictingChanges"
    by (rule chain_outcome_no_conflict) (simp_all add: checkClosest_no_conflict)
  with L_removed show ?thesis by (simp add: uploadCheck_def)
next
  case L_added
  have "chain_outcome
          (chain_outcome (checkClosestExistingAncestorIsWritable dn remote x)
             (checkEveryNewAncestorIsValidDirName dn bn vd remote))
          (\<lambda>c. chain_outcome (checkValidFileName bn vf c) (\<lambda>_. Right c))
        \<noteq> Left conflictingChanges"
    by (intro chain_outcome_no_conflict checkClosest_no_conflict checkEvery_no_conflict
        checkValidFileName_no_conflict) simp
  with L_added show ?thesis by (simp add: uploadCheck_def)
qed

lemma getFilesToUpload_no_conflict:
  "getFilesToUpload dn bn vf vd changes remote \<noteq> Left conflictingChanges"
proof
  assume "getFilesToUpload dn bn vf vd changes remote = Left conflictingChanges"
  from traverseArray_par_Left[OF this[unfolded getFilesToUpload_def]]
  obtain x where "uploadCheck dn bn vf vd remote x = Left conflictingChanges"
    by (auto simp: image_iff)
  with uploadCheck_no_conflict[of dn bn vf vd remote x] show False by simp
qed


lemma traverseArray_par_no_conflict:
  "Left conflictingChanges \<notin> set rs \<Longrightarrow> traverseArray_par rs \<noteq> Left conflictingChanges"
  using traverseArray_par_Left by blast

lemma cf_updateDir: "conflict_free (updateDir env a b c)"
  unfolding updateDir_def Let_def by (intro conflict_free_intros; simp)

lemma cf_writeSingeFile: "conflict_free (writeSingeFile env a b c d e f)"
  unfolding writeSingeFile_def Let_def by (intro conflict_free_intros; simp)

lemma cf_deleteSingeFile: "conflict_free (deleteSingeFile env a b)"
  unfolding deleteSingeFile_def by (intro conflict_free_intros)

lemma cf_addHash: "conflict_free (addHash env a b)"
  unfolding addHash_def Let_def by (intro conflict_free_intros)

lemma cf_getProjectFilesLocal: "conflict_free (getProjectFilesLocal env a)"
  unfolding getProjectFilesLocal_def
  by (intro conflict_free_intros traverseArray_par_no_conflict; auto split: sum.splits)

lemma cf_getProjectInfoLocal: "conflict_free (getProjectInfoLocal env a b)"
  unfolding getProjectInfoLocal_def
  by (intro conflict_free_intros cf_getProjectFilesLocal cf_addHash)

lemma cf_getProjectInfoRemote: "conflict_free (getProjectInfoRemote env a)"
  unfolding getProjectInfoRemote_def by (intro conflict_free_intros)

lemma cf_uploadChangedFiles: "conflict_free (uploadChangedFiles env a b c d)"
  unfolding uploadChangedFiles_def Let_def by (intro conflict_free_intros)

lemma cf_updatedProjectInfo: "conflict_free (updatedProjectInfo env a b)"
  unfolding updatedProjectInfo_def
  by (intro conflict_free_intros cf_getProjectInfoRemote cf_addHash)

lemma cf_storeNewState: "conflict_free (storeNewState env a b c)"
  unfolding storeNewState_def by (intro conflict_free_intros)

lemmas conflict_free_steps =
  cf_updateDir cf_writeSingeFile cf_deleteSingeFile cf_addHash cf_getProjectFilesLocal
  cf_getProjectInfoLocal cf_getProjectInfoRemote cf_uploadChangedFiles cf_updatedProjectInfo
  cf_storeNewState

lemma chain_Left_conflictE:
  assumes "chain m f w = (Left conflictingChanges, w')" "conflict_free m"
  obtains a w1 where "m w = (Right a, w1)" "f a w1 = (Left conflictingChanges, w')"
proof (cases rule: chain_cases[of m w f])
  case (Right a w1)
  with assms(1) that show ?thesis by simp
next
  case (Stop r w1)
  from assms(2) Stop(1) have "r \<noteq> Left conflictingChanges"
    unfolding conflict_free_def by (metis fst_conv)
  with Stop assms(1) show ?thesis by (cases r) auto
qed

lemma chain_Left_conflictD:
  assumes "chain m f w = (Left conflictingChanges, w')" "\<And>a. conflict_free (f a)"
  shows "m w = (Left conflictingChanges, w')"
proof (cases rule: chain_cases[of m w f])
  case (Right a w1)
  from assms(2)[of a] have "fst (f a w1) \<noteq> Left conflictingChanges"
    by (simp add: conflict_free_def)
  moreover from Right(2) assms(1) have "f a w1 = (Left conflictingChanges, w')" by simp
  ultimately show ?thesis by simp
next
  case (Stop r w1)
  with assms(1) show ?thesis by (cases r) auto
qed

lemma run_conflict_at_gate:
  assumes "useProjectSync env project force w = (Left conflictingChanges, w')"
  shows "\<exists>rootDir w1 projectInfoRemote w2 projectInfoLocal.
     chain (perform (SettingRead ''projectDir'') (\<lambda>h. api_settingRead env h ''projectDir''))
        (\<lambda>r. case r of None \<Rightarrow> task_left projectDirMissing | Some dir \<Rightarrow> task_right dir) w
       = (Right rootDir, w1) \<and>
     getProjectInfoRemote env (project_id project) w1 = (Right projectInfoRemote, w2) \<and>
     (case project of
        Remote m \<Rightarrow> task_right None
      | Local v \<Rightarrow> chain (getProjectInfoLocal env (path_join env [rootDir, basePath v]) v)
                     (\<lambda>l. task_right (Some l))) w2
       = (Right projectInfoLocal, w') \<and>
     checkConflicts
       (sync_localChanges force projectInfoLocal
          (case project of Remote m \<Rightarrow> None | Local v \<Rightarrow> Some (files v)))
       (sync_remoteChanges force
          (case project of Remote m \<Rightarrow> None | Local v \<Rightarrow> Some (files v))
          (info_files projectInfoRemote))
       = Inl conflictingChanges"
  using assms unfolding useProjectSync_def Let_def
  apply (erule_tac chain_Left_conflictE)
   apply (intro conflict_free_intros; simp)
  apply (erule_tac chain_Left_conflictE)
   apply (rule cf_getProjectInfoRemote)
  apply (erule_tac chain_Left_conflictE)
   apply (intro conflict_free_intros conflict_free_steps)
  apply (drule chain_Left_conflictD)
   apply (intro conflict_free_intros conflict_free_steps getFilesToUpload_no_conflict)
  apply (cases project)
   apply (auto simp: task_left_def task_right_def split: sum.splits)
  done

lemma chain_RightI: "m w = (Right a, w1) \<Longrightarrow> f a w1 = r \<Longrightarrow> chain m f w = r"
  by (simp add: chain_def)

lemma run_conflict_from_gate:
  assumes s1: "chain (perform (SettingRead ''projectDir'')
                        (\<lambda>h. api_settingRead env h ''projectDir''))
        (\<lambda>r. case r of None \<Rightarrow> task_left projectDirMissing | Some dir \<Rightarrow> task_right dir) w
       = (Right rootDir, w1)"
    and s2: "getProjectInfoRemote env (project_id project) w1 = (Right projectInfoRemote, w2)"
    and s3: "(case project of
        Remote m \<Rightarrow> task_right None
      | Local v \<Rightarrow> chain (getProjectInfoLocal env (path_join env [rootDir, basePath v]) v)
                     (\<lambda>l. task_right (Some l))) w2
       = (Right projectInfoLocal, w3)"
    and g: "checkConflicts
       (sync_localChanges force projectInfoLocal
          (case project of Remote m \<Rightarrow> None | Local v \<Rightarrow> Some (files v)))
       (sync_remoteChanges force
          (case project of Remote m \<Rightarrow> None | Local v \<Rightarrow> Some (files v))
          (info_files projectInfoRemote))
       = Inl conflictingChanges"
  shows "useProjectSync env project force w = (Left conflictingChanges, w3)"
proof (cases project)
  case (Remote m)
  with g show ?thesis by (simp add: sync_localChanges_no_baseline checkConflicts_no_local)
next
  case (Local v)
  note s2' = s2[unfolded Local]
  from s3 Local have s3': "chain (getProjectInfoLocal env (path_join env [rootDir, basePath v]) v)
                     (\<lambda>l. task_right (Some l)) w2 = (Right projectInfoLocal, w3)"
    by simp
  from g Local have g': "checkConflicts
       (sync_localChanges force projectInfoLocal (Some (files v)))
       (sync_remoteChanges force (Some (files v)) (info_files projectInfoRemote))
       = Inl conflictingChanges" by simp
  show ?thesis
    unfolding useProjectSync_def Let_def Local
    apply (rule chain_RightI, rule s1)
    apply (simp only: Project.case)
    apply (rule chain_RightI, rule s2')
    apply (rule chain_RightI, rule s3')
    apply (simp only: g' sum.case)
    apply (simp add: chain_def task_left_def)
    done
qed

lemma run_conflict_iff:
  "fst (useProjectSync env project force w) = Left conflictingChanges \<longleftrightarrow>
   (\<exists>rootDir w1 projectInfoRemote w2 projectInfoLocal w3.
     chain (perform (SettingRead ''projectDir'') (\<lambda>h. api_settingRead env h ''projectDir''))
        (\<lambda>r. case r of None \<Rightarrow> task_left projectDirMissing | Some dir \<Rightarrow> task_right dir) w
       = (Right rootDir, w1) \<and>
     getProjectInfoRemote env (project_id project) w1 = (Right projectInfoRemote, w2) \<and>
     (case project of
        Remote m \<Rightarrow> task_right None
      | Local v \<Rightarrow> chain (getProjectInfoLocal env (path_join env [rootDir, basePath v]) v)
                     (\<lambda>l. task_right (Some l))) w2
       = (Right projectInfoLocal, w3) \<and>
     checkConflicts
       (sync_localChanges force projectInfoLocal
          (case project of Remote m \<Rightarrow> None | Local v \<Rightarrow> Some (files v)))
       (sync_remoteChanges force
          (case project of Remote m \<Rightarrow> None | Local v \<Rightarrow> Some (files v))
          (info_files projectInfoRemote))
       = Inl conflictingChanges)"
  (is "?L \<longleftrightarrow> ?R")
proof
  assume ?L
  then have "useProjectSync env project force w =
      (Left conflictingChanges, snd (useProjectSync env project force w))"
    by (metis prod.collapse)
  from run_conflict_at_gate[OF this] show ?R by blast
next
  assume ?R
  then obtain rootDir w1 projectInfoRemote w2 projectInfoLocal w3 where
    "chain (perform (SettingRead ''projectDir'') (\<lambda>h. api_settingRead env h ''projectDir''))
        (\<lambda>r. case r of None \<Rightarrow> task_left projectDirMissing | Some dir \<Rightarrow> task_right dir) w
       = (Right rootDir, w1)"
    "getProjectInfoRemote env (project_id project) w1 = (Right projectInfoRemote, w2)"
    "(case project of
        Remote m \<Rightarrow> task_right None
      | Local v \<Rightarrow> chain (getProjectInfoLocal env (path_join env [rootDir, basePath v]) v)
                     (\<lambda>l. task_right (Some l))) w2
       = (Right projectInfoLocal, w3)"
    "checkConflicts
       (sync_localChanges force projectInfoLocal
          (case project of Remote m \<Rightarrow> None | Local v \<Rightarrow> Some (files v)))
       (sync_remoteChanges force
          (case project of Remote m \<Rightarrow> None | Local v \<Rightarrow> Some (files v))
          (info_files projectInfoRemote))
       = Inl conflictingChanges"
    by blast
  from run_conflict_from_gate[OF this] show ?L by simp
qed

lemma run_conflict_unforced:
  assumes "fst (useProjectSync env project force w) = Left conflictingChanges"
  shows "force = None \<and> (\<exists>v. project = Local v)"
proof -
  from assms[unfolded run_conflict_iff] obtain lo :: "LocalFileState list option"
    and info :: ProjectInfo where
    g: "checkConflicts
       (sync_localChanges force lo
          (case project of Remote m \<Rightarrow> None | Local v \<Rightarrow> Some (files v)))
       (sync_remoteChanges force
          (case project of Remote m \<Rightarrow> None | Local v \<Rightarrow> Some (files v))
          (info_files (info :: ProjectInfo)))
       = Inl conflictingChanges" by blast
  have "force = None"
  proof (cases force)
    case None
    then show ?thesis .
  next
    case (Some d)
    with g show ?thesis
      by (cases d)
        (simp_all add: sync_remoteChanges_push sync_localChanges_pull checkConflicts_no_remote
          checkConflicts_no_local)
  qed
  moreover have "\<exists>v. project = Local v"
  proof (cases project)
    case (Remote m)
    with g show ?thesis by (simp add: sync_localChanges_no_baseline checkConflicts_no_local)
  next
    case (Local v)
    then show ?thesis by blast
  qed
  ultimately show ?thesis ..
qed

text \<open>
  Claim C3. The conflict gate fails with \<^verbatim>\<open>conflictingChanges\<close> exactly when both change
  sets are present, non-empty and share a path; in every other case it passes. Under
  \<^verbatim>\<open>force = 'push'\<close> the remote change set of the run is none, under \<^verbatim>\<open>force = 'pull'\<close> the
  local one is, and the gate passes whatever the other side reports. A run fails with
  \<^verbatim>\<open>conflictingChanges\<close> exactly when it has read the project directory setting, the remote
  inventory and the local files, and the gate fails on the two change sets computed from
  them: no other step of the run reports this exception. Such a run has no \<^verbatim>\<open>force\<close>
  option and a \<^verbatim>\<open>Local\<close> project.
\<close>

theorem conflict_gate_iff:
  "(checkConflicts localChanges remoteChanges = Inl conflictingChanges \<longleftrightarrow>
      (\<exists>ls rs. localChanges = Some ls \<and> remoteChanges = Some rs \<and> ls \<noteq> [] \<and> rs \<noteq> [] \<and>
               path ` set ls \<inter> path ` set rs \<noteq> {})) \<and>
   (checkConflicts localChanges remoteChanges \<noteq> Inl conflictingChanges \<longrightarrow>
      checkConflicts localChanges remoteChanges = Inr ()) \<and>
   sync_remoteChanges (Some push) projectInfoPrevious remoteFiles = None \<and>
   sync_localChanges (Some pull) projectInfoLocal projectInfoPrevious' = None \<and>
   checkConflicts localChanges (sync_remoteChanges (Some push) projectInfoPrevious remoteFiles)
     = Inr () \<and>
   checkConflicts (sync_localChanges (Some pull) projectInfoLocal projectInfoPrevious')
     remoteChanges = Inr () \<and>
   (fst (useProjectSync env project force w) = Left conflictingChanges \<longleftrightarrow>
     (\<exists>rootDir w1 info w2 localFiles w3.
        chain (perform (SettingRead ''projectDir'') (\<lambda>h. api_settingRead env h ''projectDir''))
          (\<lambda>r. case r of None \<Rightarrow> task_left projectDirMissing | Some dir \<Rightarrow> task_right dir) w
          = (Right rootDir, w1) \<and>
        getProjectInfoRemote env (project_id project) w1 = (Right info, w2) \<and>
        (case project of
           Remote m \<Rightarrow> task_right None
         | Local v \<Rightarrow> chain (getProjectInfoLocal env (path_join env [rootDir, basePath v]) v)
                        (\<lambda>l. task_right (Some l))) w2
          = (Right localFiles, w3) \<and>
        checkConflicts
          (sync_localChanges force localFiles
             (case project of Remote m \<Rightarrow> None | Local v \<Rightarrow> Some (files v)))
          (sync_remoteChanges force
             (case project of Remote m \<Rightarrow> None | Local v \<Rightarrow> Some (files v))
             (info_files info))
          = Inl conflictingChanges)) \<and>
   (fst (useProjectSync env project force w) = Left conflictingChanges \<longrightarrow>
      force = None \<and> (\<exists>v. project = Local v))"
  apply (intro conjI impI)
         apply (rule checkConflicts_Inl_iff)
        apply (erule checkConflicts_passes)
       apply (rule sync_remoteChanges_push)
      apply (rule sync_localChanges_pull)
     apply (simp only: sync_remoteChanges_push checkConflicts_no_remote)
    apply (simp only: sync_localChanges_pull checkConflicts_no_local)
   apply (rule run_conflict_iff)
  apply (erule run_conflict_unforced[THEN conjunct1])
  apply (erule run_conflict_unforced[THEN conjunct2])
  done

theorem conflict_gate_iff_witness:
  "checkConflicts (Some [\<lparr>path = ''a.txt'', LocalFileChange.change = L_updated\<rparr>])
      (Some [\<lparr>path = ''b.txt'', RemoteFileChange.change = R_removed\<rparr>])
     \<noteq> Inl conflictingChanges \<and>
   checkConflicts (Some [\<lparr>path = ''a.txt'', LocalFileChange.change = L_updated\<rparr>])
      (Some [\<lparr>path = ''b.txt'', RemoteFileChange.change = R_removed\<rparr>]) = Inr () \<and>
   fst (useProjectSync example_env (example_local ''H1'' 1 syncing) None example_world)
     = Left conflictingChanges \<and>
   (\<exists>v. example_local ''H1'' 1 syncing = Local v)"
proof -
  let ?l = "Some [\<lparr>path = ''a.txt'', LocalFileChange.change = L_updated\<rparr>]"
  let ?r = "Some [\<lparr>path = ''b.txt'', RemoteFileChange.change = R_removed\<rparr>]"
  let ?run = "useProjectSync example_env (example_local ''H1'' 1 syncing) None example_world"
  have h: "checkConflicts ?l ?r \<noteq> Inl conflictingChanges"
    by (simp add: checkConflicts_def sequenceS_def getConflicts_def intersection_def elem_def
        eqPath_def fromArray_def)
  have e: "fst ?run = Left conflictingChanges" by code_simp
  note t = conflict_gate_iff[of ?l ?r _ _ _ _ example_env "example_local ''H1'' 1 syncing"
      None example_world]
  from t[THEN conjunct2, THEN conjunct1] h
  have 1: "checkConflicts ?l ?r = Inr ()" by (rule mp)
  from t[THEN conjunct2, THEN conjunct2, THEN conjunct2, THEN conjunct2, THEN conjunct2,
      THEN conjunct2, THEN conjunct2] e
  have 2: "(None :: ForceSyncDirection option) = None \<and>
           (\<exists>v. example_local ''H1'' 1 syncing = Local v)" by (rule mp)
  from h 1 e 2 show ?thesis by (intro conjI) simp_all
qed

end
